theory Spec2Isabelle
  imports Main "HOL-Library.Sublist"
begin

section \<open>Values of the JavaScript runtime\<close>

text \<open>
  The plugin keeps one record in \<^verbatim>\<open>localStorage\<close> and reads it back with
  \<^verbatim>\<open>JSON.parse\<close>. A parsed value is a \<open>json\<close>; \<^verbatim>\<open>undefined\<close> is \<open>None\<close> of
  \<open>json option\<close>. A number keeps its literal: no code here inspects its value.
  An object is its list of own properties (names distinct, as a parser leaves them).
\<close>

datatype json =
    JNull
  | JBool bool
  | JNumber string
  | JString string
  | JArray "json list"
  | JObject "(string \<times> json) list"

text \<open>
  What the code can raise: the parser's \<^verbatim>\<open>SyntaxError\<close>, a \<^verbatim>\<open>TypeError\<close> (a property
  of \<^verbatim>\<open>null\<close> or \<^verbatim>\<open>undefined\<close>, a call of something that is no function), the
  plugin's own \<^verbatim>\<open>new Error(message)\<close>, and whatever a collaborator (wallet, RPC
  client, key library, the host's continuation) rejects with.
\<close>

datatype error =
    SyntaxError
  | TypeError
  | Error string
  | Rejected string

text \<open>
  A text held by \<^verbatim>\<open>localStorage\<close>, classified by what the runtime makes of it: the
  empty string (falsy), a non-empty text on which \<^verbatim>\<open>JSON.parse\<close> raises
  \<^verbatim>\<open>SyntaxError\<close> (for instance a truncated record), or a text that parses to a value.
\<close>

datatype stored_text =
    EmptyText
  | Unparsable
  | Parsed json

text \<open>\<^verbatim>\<open>!s\<close> for the result of \<^verbatim>\<open>getItem\<close>: \<^verbatim>\<open>null\<close> and \<^verbatim>\<open>""\<close> are falsy.\<close>

fun falsy :: "stored_text option \<Rightarrow> bool" where
  "falsy None = True"
| "falsy (Some EmptyText) = True"
| "falsy (Some Unparsable) = False"
| "falsy (Some (Parsed v)) = False"

text \<open>
  \<^verbatim>\<open>JSON.parse(localStorage.getItem(k)!)\<close>: the argument \<^verbatim>\<open>null\<close> is converted to
  the text \<^verbatim>\<open>null\<close>, which parses to \<^verbatim>\<open>null\<close>; the empty string is no JSON text.
\<close>

fun JSON_parse :: "stored_text option \<Rightarrow> error + json" where
  "JSON_parse None = Inr JNull"
| "JSON_parse (Some EmptyText) = Inl SyntaxError"
| "JSON_parse (Some Unparsable) = Inl SyntaxError"
| "JSON_parse (Some (Parsed v)) = Inr v"

text \<open>
  Property access \<^verbatim>\<open>v.name\<close> on a parsed value, for the names this program reads
  (\<^verbatim>\<open>accountId\<close>, \<^verbatim>\<open>privateKey\<close>, \<^verbatim>\<open>contractId\<close>, \<^verbatim>\<open>allowedMethods\<close>), none of
  which a prototype provides: \<^verbatim>\<open>null\<close> raises, an object gives its own property
  or \<^verbatim>\<open>undefined\<close>, every other value gives \<^verbatim>\<open>undefined\<close>.
\<close>

fun js_get :: "json \<Rightarrow> string \<Rightarrow> error + json option" where
  "js_get JNull name = Inl TypeError"
| "js_get (JObject props) name = Inr (map_of props name)"
| "js_get v name = Inr None"

text \<open>
  \<^verbatim>\<open>v.includes(m)\<close> for a string \<open>m\<close>: on an array, membership by strict equality
  (\<^verbatim>\<open>Array.prototype.includes\<close>); on a string, the substring test
  (\<^verbatim>\<open>String.prototype.includes\<close>); \<^verbatim>\<open>undefined\<close> and \<^verbatim>\<open>null\<close> have no properties,
  and on the other values \<^verbatim>\<open>includes\<close> is not a function.
\<close>

fun js_includes :: "json option \<Rightarrow> string \<Rightarrow> error + bool" where
  "js_includes (Some (JArray xs)) m = Inr (JString m \<in> set xs)"
| "js_includes (Some (JString s)) m = Inr (sublist m s)"
| "js_includes v m = Inl TypeError"

text \<open>\<^verbatim>\<open>x || d\<close> for an optional string: \<^verbatim>\<open>undefined\<close> and \<^verbatim>\<open>""\<close> give \<open>d\<close>.\<close>

fun or_default :: "string option \<Rightarrow> string \<Rightarrow> string" where
  "or_default None d = d"
| "or_default (Some s) d = (if s = [] then d else s)"

section \<open>The data of the plugin\<close>

record AccessKeyData =
  accountId :: string
  privateKey :: string
  contractId :: string
  allowedMethods :: "string list"
  allowance :: string

text \<open>The value \<^verbatim>\<open>JSON.parse\<close> returns for the text of a whole record.\<close>

definition AccessKeyData_json :: "AccessKeyData \<Rightarrow> json" where
  "AccessKeyData_json k =
     JObject [(''accountId'', JString (accountId k)),
              (''privateKey'', JString (privateKey k)),
              (''contractId'', JString (contractId k)),
              (''allowedMethods'', JArray (map JString (allowedMethods k))),
              (''allowance'', JString (allowance k))]"

text \<open>
  The actions of a transaction, a union tagged by \<^verbatim>\<open>type\<close>. The code reads the
  parameters of a \<^verbatim>\<open>FunctionCall\<close> and builds those of an \<^verbatim>\<open>AddKey\<close>; of the other
  kinds it reads the tag only. \<^verbatim>\<open>gas\<close> and \<^verbatim>\<open>deposit\<close> may be left out; the code
  takes \<^verbatim>\<open>methodName\<close> to be there.
\<close>

record FunctionCallParams =
  methodName :: string
  args :: json
  gas :: "string option"
  deposit :: "string option"

record FunctionCallPermission =
  permission_receiverId :: string
  permission_methodNames :: "string list"
  permission_allowance :: string

record AddKeyParams =
  publicKey :: string
  permission :: FunctionCallPermission

datatype action =
    FunctionCall FunctionCallParams
  | AddKey AddKeyParams
  | CreateAccount
  | DeployContract
  | Stake
  | Transfer
  | DeleteKey
  | DeleteAccount

fun action_type :: "action \<Rightarrow> string" where
  "action_type (FunctionCall p) = ''FunctionCall''"
| "action_type (AddKey p) = ''AddKey''"
| "action_type CreateAccount = ''CreateAccount''"
| "action_type DeployContract = ''DeployContract''"
| "action_type Stake = ''Stake''"
| "action_type Transfer = ''Transfer''"
| "action_type DeleteKey = ''DeleteKey''"
| "action_type DeleteAccount = ''DeleteAccount''"

record SignAndSendTransactionParams =
  network :: "string option"
  receiverId :: string
  actions :: "action list"

text \<open>
  The request \<^verbatim>\<open>createAccessKey\<close> hands to the wallet: its receiver is the first
  wallet account's id, \<^verbatim>\<open>undefined\<close> when the wallet has none.
\<close>

record WalletTransaction =
  wallet_receiverId :: "string option"
  wallet_actions :: "action list"

record WalletAccount =
  account_accountId :: string

text \<open>
  A key pair of the key library, by the two texts the code takes from it:
  \<^verbatim>\<open>getPublicKey().toString()\<close> and \<^verbatim>\<open>toString()\<close> (the secret key).
\<close>

record KeyPair =
  getPublicKey :: string
  toString :: string

datatype FinalExecutionOutcome = FinalExecutionOutcome string

text \<open>An action as \<^verbatim>\<open>actionCreators.functionCall\<close> builds it, amounts as integers.\<close>

datatype near_action = functionCall string json int int

text \<open>
  What \<^verbatim>\<open>account.signAndSendTransaction\<close> sends: the RPC endpoint, the account of
  the signer (the stored \<^verbatim>\<open>accountId\<close>, whatever value it parsed to), its key pair,
  the receiver and the translated actions.
\<close>

record submission =
  rpcUrl :: string
  signer_accountId :: "json option"
  signer_keyPair :: KeyPair
  submission_receiverId :: string
  submission_actions :: "near_action list"

section \<open>State and collaborators\<close>

text \<open>
  Every call that leaves the plugin is an event, recorded in order. A collaborator is
  given by its answers: to the call that ends a history it answers with a rejection
  or a value. The answer may depend on everything that happened before, so such a
  function stands for any behaviour of the wallet, the network or the host whose
  promises settle. Collaborators do not write the plugin's entry of
  \<^verbatim>\<open>localStorage\<close>.
\<close>

datatype event =
    WalletGetAccounts
  | ConsoleLog string
  | WalletSignAndSendTransaction WalletTransaction
  | AccountSignAndSendTransaction submission
  | Next

type_synonym 'a collaborator = "event list \<Rightarrow> error + 'a"

record world =
  localStorage :: "string \<Rightarrow> stored_text option"
  trace :: "event list"

definition STORAGE_KEY :: string where
  "STORAGE_KEY = ''access_key::plugin''"

definition getItem :: "world \<Rightarrow> string \<Rightarrow> stored_text option" where
  "getItem w k = localStorage w k"

definition setItem :: "string \<Rightarrow> stored_text \<Rightarrow> world \<Rightarrow> world" where
  "setItem k v w = w\<lparr>localStorage := (localStorage w)(k \<mapsto> v)\<rparr>"

definition removeItem :: "string \<Rightarrow> world \<Rightarrow> world" where
  "removeItem k w = w\<lparr>localStorage := (localStorage w)(k := None)\<rparr>"

text \<open>An awaited call of a collaborator: the event is recorded, the collaborator answers.\<close>

definition await :: "event \<Rightarrow> 'a collaborator \<Rightarrow> world \<Rightarrow> (error + 'a) \<times> world" where
  "await ev f w = (f (trace w @ [ev]), w\<lparr>trace := trace w @ [ev]\<rparr>)"

section \<open>shouldUseAccessKey\<close>

text \<open>
  The loop over \<^verbatim>\<open>tx.actions\<close>: the first action that is no \<^verbatim>\<open>FunctionCall\<close>, or whose
  method the stored list does not include, ends it with \<^verbatim>\<open>false\<close>.
\<close>

fun actions_allowed :: "json \<Rightarrow> action list \<Rightarrow> error + bool" where
  "actions_allowed key [] = Inr True"
| "actions_allowed key (FunctionCall p # rest) =
     (case js_get key ''allowedMethods'' of
        Inl e \<Rightarrow> Inl e
      | Inr methods \<Rightarrow>
          (case js_includes methods (methodName p) of
             Inl e \<Rightarrow> Inl e
           | Inr b \<Rightarrow> if \<not> b then Inr False else actions_allowed key rest))"
| "actions_allowed key (a # rest) = Inr False"

definition shouldUseAccessKey :: "world \<Rightarrow> SignAndSendTransactionParams \<Rightarrow> error + bool" where
  "shouldUseAccessKey w tx =
     (if falsy (getItem w STORAGE_KEY) then Inr False
      else
        (case JSON_parse (getItem w STORAGE_KEY) of
           Inl e \<Rightarrow> Inl e
         | Inr key \<Rightarrow>
             (case js_get key ''contractId'' of
                Inl e \<Rightarrow> Inl e
              | Inr c \<Rightarrow>
                  if c \<noteq> Some (JString (receiverId tx)) then Inr False
                  else actions_allowed key (actions tx))))"

section \<open>signTransactionLocally\<close>

text \<open>
  The libraries the local path calls: \<^verbatim>\<open>KeyPair.fromString\<close> (it may reject the
  value it is given), \<^verbatim>\<open>BigInt\<close> on a string (\<open>None\<close> is its \<^verbatim>\<open>SyntaxError\<close>), and
  the RPC client behind \<^verbatim>\<open>account.signAndSendTransaction\<close>.
\<close>

record platform =
  KeyPair_fromString :: "json option \<Rightarrow> error + KeyPair"
  BigInt :: "string \<Rightarrow> int option"
  account_signAndSendTransaction :: "FinalExecutionOutcome collaborator"

text \<open>The callback of \<^verbatim>\<open>tx.actions.map\<close>.\<close>

fun translate_action :: "(string \<Rightarrow> int option) \<Rightarrow> action \<Rightarrow> error + near_action" where
  "translate_action bigint (FunctionCall p) =
     (case bigint (or_default (gas p) ''30000000000000'') of
        None \<Rightarrow> Inl SyntaxError
      | Some g \<Rightarrow>
          (case bigint (or_default (deposit p) ''0'') of
             None \<Rightarrow> Inl SyntaxError
           | Some d \<Rightarrow> Inr (functionCall (methodName p) (args p) g d)))"
| "translate_action bigint a = Inl (Error (''Unsupported action type: '' @ action_type a))"

fun map_actions :: "(string \<Rightarrow> int option) \<Rightarrow> action list \<Rightarrow> error + near_action list" where
  "map_actions bigint [] = Inr []"
| "map_actions bigint (a # rest) =
     (case translate_action bigint a of
        Inl e \<Rightarrow> Inl e
      | Inr x \<Rightarrow>
          (case map_actions bigint rest of
             Inl e \<Rightarrow> Inl e
           | Inr xs \<Rightarrow> Inr (x # xs)))"

definition rpcUrl_of :: "SignAndSendTransactionParams \<Rightarrow> string" where
  "rpcUrl_of tx =
     (if network tx = Some ''mainnet'' then ''https://rpc.fastnear.com''
      else ''https://test.rpc.fastnear.com'')"

text \<open>
  The body of \<^verbatim>\<open>signTransactionLocally\<close> up to its \<^verbatim>\<open>await\<close>: what it is about to
  submit, or the error raised on the way, in the order of the source.
\<close>

definition local_submission ::
  "platform \<Rightarrow> world \<Rightarrow> SignAndSendTransactionParams \<Rightarrow> error + submission" where
  "local_submission pf w tx =
     (case JSON_parse (getItem w STORAGE_KEY) of
        Inl e \<Rightarrow> Inl e
      | Inr keyData \<Rightarrow>
          (case js_get keyData ''privateKey'' of
             Inl e \<Rightarrow> Inl e
           | Inr secret \<Rightarrow>
               (case KeyPair_fromString pf secret of
                  Inl e \<Rightarrow> Inl e
                | Inr keyPair \<Rightarrow>
                    (case js_get keyData ''accountId'' of
                       Inl e \<Rightarrow> Inl e
                     | Inr account \<Rightarrow>
                         (case map_actions (BigInt pf) (actions tx) of
                            Inl e \<Rightarrow> Inl e
                          | Inr acts \<Rightarrow>
                              Inr \<lparr>rpcUrl = rpcUrl_of tx,
                                   signer_accountId = account,
                                   signer_keyPair = keyPair,
                                   submission_receiverId = receiverId tx,
                                   submission_actions = acts\<rparr>)))))"

definition signTransactionLocally ::
  "platform \<Rightarrow> SignAndSendTransactionParams \<Rightarrow> world
     \<Rightarrow> (error + FinalExecutionOutcome) \<times> world" where
  "signTransactionLocally pf tx w =
     (case local_submission pf w tx of
        Inl e \<Rightarrow> (Inl e, w)
      | Inr s \<Rightarrow> await (AccountSignAndSendTransaction s) (account_signAndSendTransaction pf) w)"

section \<open>The plugin\<close>

text \<open>
  \<^verbatim>\<open>signOut(params, next)\<close>: \<open>params\<close> is not read; \<open>next\<close> is optional in the
  signature and called unchecked.
\<close>

definition signOut :: "unit collaborator option \<Rightarrow> world \<Rightarrow> (error + unit) \<times> world" where
  "signOut next w =
     (let w' = removeItem STORAGE_KEY w in
      case next of
        None \<Rightarrow> (Inl TypeError, w')
      | Some continue \<Rightarrow> await Next continue w')"

definition signAndSendTransaction ::
  "platform \<Rightarrow> SignAndSendTransactionParams \<Rightarrow> FinalExecutionOutcome collaborator \<Rightarrow> world
     \<Rightarrow> (error + FinalExecutionOutcome) \<times> world" where
  "signAndSendTransaction pf params next w =
     (case shouldUseAccessKey w params of
        Inl e \<Rightarrow> (Inl e, w)
      | Inr use \<Rightarrow>
          if use then signTransactionLocally pf params w
          else await Next next w)"

text \<open>\<^verbatim>\<open>Array.prototype.every\<close>: it stops at the first \<^verbatim>\<open>false\<close>, or where the callback raises.\<close>

fun every :: "('a \<Rightarrow> error + bool) \<Rightarrow> 'a list \<Rightarrow> error + bool" where
  "every f [] = Inr True"
| "every f (x # xs) =
     (case f x of
        Inl e \<Rightarrow> Inl e
      | Inr b \<Rightarrow> if b then every f xs else Inr False)"

text \<open>The \<^verbatim>\<open>for\<close> loop of the batch: one awaited submission after the other.\<close>

fun sign_each ::
  "platform \<Rightarrow> SignAndSendTransactionParams list \<Rightarrow> FinalExecutionOutcome list \<Rightarrow> world
     \<Rightarrow> (error + FinalExecutionOutcome list) \<times> world" where
  "sign_each pf [] results w = (Inr results, w)"
| "sign_each pf (tx # txs) results w =
     (case signTransactionLocally pf tx w of
        (Inl e, w') \<Rightarrow> (Inl e, w')
      | (Inr result, w') \<Rightarrow> sign_each pf txs (results @ [result]) w')"

definition signAndSendTransactions ::
  "platform \<Rightarrow> SignAndSendTransactionParams list
     \<Rightarrow> FinalExecutionOutcome list collaborator \<Rightarrow> world
     \<Rightarrow> (error + FinalExecutionOutcome list) \<times> world" where
  "signAndSendTransactions pf transactions next w =
     (case every (shouldUseAccessKey w) transactions of
        Inl e \<Rightarrow> (Inl e, w)
      | Inr allCanUseAccessKey \<Rightarrow>
          if allCanUseAccessKey then sign_each pf transactions [] w
          else await Next next w)"

subsection \<open>createAccessKey\<close>

record NearWalletBase =
  manifest_id :: string
  getAccounts :: "WalletAccount list collaborator"
  wallet_signAndSendTransaction :: "FinalExecutionOutcome collaborator"

record CreateAccessKeyParams =
  wallet :: NearWalletBase
  params_contractId :: string
  methodNames :: "string list option"
  params_allowance :: "string option"

definition DEFAULT_ALLOWANCE :: string where
  "DEFAULT_ALLOWANCE = ''250000000000000000000000''"

definition console_log :: "string \<Rightarrow> world \<Rightarrow> world" where
  "console_log s w = w\<lparr>trace := trace w @ [ConsoleLog s]\<rparr>"

text \<open>\<^verbatim>\<open>walletAccounts[0]?.accountId\<close>\<close>

fun first_accountId :: "WalletAccount list \<Rightarrow> string option" where
  "first_accountId [] = None"
| "first_accountId (a # rest) = Some (account_accountId a)"

text \<open>The request for the wallet; \<^verbatim>\<open>methodNames || []\<close> is the list, or the empty one.\<close>

definition AddKey_transaction ::
  "string option \<Rightarrow> string \<Rightarrow> string \<Rightarrow> string list option \<Rightarrow> string \<Rightarrow> WalletTransaction" where
  "AddKey_transaction owner newPublicKey contract methods allowed =
     \<lparr>wallet_receiverId = owner,
      wallet_actions =
        [AddKey \<lparr>publicKey = newPublicKey,
                 permission =
                   \<lparr>permission_receiverId = contract,
                    permission_methodNames = (case methods of None \<Rightarrow> [] | Some ms \<Rightarrow> ms),
                    permission_allowance = allowed\<rparr>\<rparr>]\<rparr>"

text \<open>
  \<^verbatim>\<open>JSON.stringify\<close> leaves out a property whose value is \<^verbatim>\<open>undefined\<close>. The stored
  text is the one that parses to the object of the remaining properties, in their
  order; \<^verbatim>\<open>setItem\<close> is taken to succeed.
\<close>

fun property :: "string \<Rightarrow> json option \<Rightarrow> (string \<times> json) list" where
  "property name None = []"
| "property name (Some v) = [(name, v)]"

definition JSON_stringify_key ::
  "string option \<Rightarrow> string \<Rightarrow> string \<Rightarrow> string list option \<Rightarrow> string \<Rightarrow> stored_text" where
  "JSON_stringify_key owner secret contract methods allowed =
     Parsed (JObject
       (property ''accountId'' (map_option JString owner)
        @ property ''privateKey'' (Some (JString secret))
        @ property ''contractId'' (Some (JString contract))
        @ property ''allowedMethods'' (map_option (\<lambda>ms. JArray (map JString ms)) methods)
        @ property ''allowance'' (Some (JString (or_default (Some allowed) DEFAULT_ALLOWANCE)))))"

text \<open>
  \<open>keyPair\<close> is the pair \<^verbatim>\<open>KeyPair.fromRandom("ed25519")\<close> draws during the call.
\<close>

definition createAccessKey ::
  "CreateAccessKeyParams \<Rightarrow> KeyPair \<Rightarrow> world \<Rightarrow> (error + FinalExecutionOutcome) \<times> world" where
  "createAccessKey params keyPair w =
     (let allowed = or_default (params_allowance params) DEFAULT_ALLOWANCE in
      case await WalletGetAccounts (getAccounts (wallet params)) w of
        (Inl e, w1) \<Rightarrow> (Inl e, w1)
      | (Inr walletAccounts, w1) \<Rightarrow>
          (let w2 = console_log (manifest_id (wallet params)) w1;
               owner = first_accountId walletAccounts;
               newPublicKey = getPublicKey keyPair;
               secret = toString keyPair
           in case await
                     (WalletSignAndSendTransaction
                        (AddKey_transaction owner newPublicKey (params_contractId params)
                           (methodNames params) allowed))
                     (wallet_signAndSendTransaction (wallet params)) w2 of
                (Inl e, w3) \<Rightarrow> (Inl e, w3)
              | (Inr result, w3) \<Rightarrow>
                  (Inr result,
                   setItem STORAGE_KEY
                     (JSON_stringify_key owner secret (params_contractId params)
                        (methodNames params) allowed) w3)))"

section \<open>The vocabulary of the properties\<close>

text \<open>The store holds a whole credential record.\<close>

definition holds_key :: "world \<Rightarrow> AccessKeyData \<Rightarrow> bool" where
  "holds_key w k = (getItem w STORAGE_KEY = Some (Parsed (AccessKeyData_json k)))"

text \<open>What the specification asks of a request against a credential.\<close>

definition is_allowed_call :: "AccessKeyData \<Rightarrow> action \<Rightarrow> bool" where
  "is_allowed_call k a =
     (case a of FunctionCall p \<Rightarrow> methodName p \<in> set (allowedMethods k) | _ \<Rightarrow> False)"

definition in_scope :: "AccessKeyData \<Rightarrow> SignAndSendTransactionParams \<Rightarrow> bool" where
  "in_scope k tx = (receiverId tx = contractId k \<and> list_all (is_allowed_call k) (actions tx))"

text \<open>
  The answers of the network to submissions made one after the other, starting from
  the history \<open>h\<close>: each answer is given on the history that holds the submissions
  before it and its own.
\<close>

fun answers ::
  "FinalExecutionOutcome collaborator \<Rightarrow> event list \<Rightarrow> submission list
     \<Rightarrow> (error + FinalExecutionOutcome) list" where
  "answers net h [] = []"
| "answers net h (s # ss) =
     net (h @ [AccountSignAndSendTransaction s])
       # answers net (h @ [AccountSignAndSendTransaction s]) ss"

text \<open>
  The request \<open>createAccessKey\<close> makes of the wallet when the wallet has the accounts
  \<open>accounts\<close>, and the history on which the wallet answers it.
\<close>

definition registration ::
  "CreateAccessKeyParams \<Rightarrow> KeyPair \<Rightarrow> WalletAccount list \<Rightarrow> WalletTransaction" where
  "registration params keyPair accounts =
     AddKey_transaction (first_accountId accounts) (getPublicKey keyPair)
       (params_contractId params) (methodNames params)
       (or_default (params_allowance params) DEFAULT_ALLOWANCE)"

definition registration_history ::
  "world \<Rightarrow> CreateAccessKeyParams \<Rightarrow> KeyPair \<Rightarrow> WalletAccount list \<Rightarrow> event list" where
  "registration_history w params keyPair accounts =
     trace w @ [WalletGetAccounts, ConsoleLog (manifest_id (wallet params)),
                WalletSignAndSendTransaction (registration params keyPair accounts)]"

text \<open>The number a text of decimal digits denotes, read from the left.\<close>

fun digit_value :: "char \<Rightarrow> int option" where
  "digit_value c =
     (let n = (of_char c :: nat) in if 48 \<le> n \<and> n \<le> 57 then Some (int n - 48) else None)"

fun decimal_from :: "int \<Rightarrow> string \<Rightarrow> int option" where
  "decimal_from n [] = Some n"
| "decimal_from n (c # cs) =
     (case digit_value c of None \<Rightarrow> None | Some d \<Rightarrow> decimal_from (10 * n + d) cs)"

section \<open>Example data\<close>

text \<open>
  The example of the specification: a key for \<^verbatim>\<open>app.near\<close> that may call \<^verbatim>\<open>vote\<close>,
  and requests that call a method of a contract, or transfer.
\<close>

definition app_key :: AccessKeyData where
  "app_key =
     \<lparr>accountId = ''alice.near'', privateKey = ''ed25519:secret'', contractId = ''app.near'',
      allowedMethods = [''vote''], allowance = ''250000000000000000000000''\<rparr>"

definition call_tx :: "string \<Rightarrow> string \<Rightarrow> SignAndSendTransactionParams" where
  "call_tx receiver method =
     \<lparr>network = Some ''testnet'', receiverId = receiver,
      actions = [FunctionCall \<lparr>methodName = method, args = JObject [], gas = None,
                               deposit = None\<rparr>]\<rparr>"

definition transfer_tx :: SignAndSendTransactionParams where
  "transfer_tx = \<lparr>network = Some ''testnet'', receiverId = ''app.near'', actions = [Transfer]\<rparr>"

definition empty_world :: world where
  "empty_world = \<lparr>localStorage = (\<lambda>k. None), trace = []\<rparr>"

definition app_world :: world where
  "app_world = setItem STORAGE_KEY (Parsed (AccessKeyData_json app_key)) empty_world"

text \<open>A key that may call three methods, for batches.\<close>

definition batch_key :: AccessKeyData where
  "batch_key = app_key\<lparr>allowedMethods := [''vote'', ''like'', ''fail'']\<rparr>"

definition batch_world :: world where
  "batch_world = setItem STORAGE_KEY (Parsed (AccessKeyData_json batch_key)) empty_world"

text \<open>
  Stores whose text is no JSON, such as the cut record
  \<^verbatim>\<open>{"accountId":"alice.near","priv\<close>, or is the empty string.
\<close>

definition truncated_world :: world where
  "truncated_world = setItem STORAGE_KEY Unparsable empty_world"

definition blank_world :: world where
  "blank_world = setItem STORAGE_KEY EmptyText empty_world"

text \<open>
  Stores whose text parses to a value that is no credential: the text \<^verbatim>\<open>null\<close>, the
  empty object, a record without \<^verbatim>\<open>allowedMethods\<close> (what \<open>createAccessKey\<close> stores when
  it is called without method names), and a record whose \<^verbatim>\<open>allowedMethods\<close> is one
  string. A request without actions goes with them.
\<close>

definition null_world :: world where
  "null_world = setItem STORAGE_KEY (Parsed JNull) empty_world"

definition empty_object_world :: world where
  "empty_object_world = setItem STORAGE_KEY (Parsed (JObject [])) empty_world"

definition unscoped_record :: json where
  "unscoped_record =
     JObject [(''accountId'', JString ''alice.near''),
              (''privateKey'', JString ''ed25519:secret''),
              (''contractId'', JString ''app.near''),
              (''allowance'', JString ''250000000000000000000000'')]"

definition unscoped_world :: world where
  "unscoped_world = setItem STORAGE_KEY (Parsed unscoped_record) empty_world"

definition string_methods_record :: json where
  "string_methods_record =
     JObject [(''accountId'', JString ''alice.near''),
              (''privateKey'', JString ''ed25519:secret''),
              (''contractId'', JString ''app.near''),
              (''allowedMethods'', JString ''vote,like''),
              (''allowance'', JString ''250000000000000000000000'')]"

definition string_methods_world :: world where
  "string_methods_world = setItem STORAGE_KEY (Parsed string_methods_record) empty_world"

definition no_action_tx :: SignAndSendTransactionParams where
  "no_action_tx = \<lparr>network = Some ''testnet'', receiverId = ''app.near'', actions = []\<rparr>"

text \<open>
  Example collaborators. The key library accepts any string; the conversion reads
  decimal digits (the form of the amounts below, the empty text being zero) and
  answers \<open>None\<close> on any other character; the
  network answers a submission with the name of its first method, and rejects the
  method \<^verbatim>\<open>fail\<close>; the host's continuations answer with fixed values.
\<close>

definition example_fromString :: "json option \<Rightarrow> error + KeyPair" where
  "example_fromString v =
     (case v of
        Some (JString s) \<Rightarrow> Inr \<lparr>getPublicKey = ''ed25519:public'', toString = s\<rparr>
      | _ \<Rightarrow> Inl (Rejected ''invalid key''))"

definition example_BigInt :: "string \<Rightarrow> int option" where
  "example_BigInt s = decimal_from 0 s"

definition example_network :: "FinalExecutionOutcome collaborator" where
  "example_network h =
     (case rev h of
        AccountSignAndSendTransaction s # before \<Rightarrow>
          (case submission_actions s of
             functionCall m a g d # rest \<Rightarrow>
               if m = ''fail'' then Inl (Rejected ''network'')
               else Inr (FinalExecutionOutcome m)
           | [] \<Rightarrow> Inr (FinalExecutionOutcome []))
      | _ \<Rightarrow> Inl (Rejected ''no submission''))"

definition example_platform :: platform where
  "example_platform =
     \<lparr>KeyPair_fromString = example_fromString, BigInt = example_BigInt,
      account_signAndSendTransaction = example_network\<rparr>"

definition host_next :: "FinalExecutionOutcome collaborator" where
  "host_next h = Inr (FinalExecutionOutcome ''signed by the wallet'')"

definition host_next_batch :: "FinalExecutionOutcome list collaborator" where
  "host_next_batch h = Inr [FinalExecutionOutcome ''signed by the wallet'']"

definition host_signOut :: "unit collaborator" where
  "host_signOut h = Inr ()"

text \<open>Wallets: one that signs what it is asked, with the given accounts, and one that refuses.\<close>

definition alice :: WalletAccount where
  "alice = \<lparr>account_accountId = ''alice.near''\<rparr>"

definition example_wallet :: "WalletAccount list \<Rightarrow> NearWalletBase" where
  "example_wallet accounts =
     \<lparr>manifest_id = ''example-wallet'', getAccounts = (\<lambda>h. Inr accounts),
      wallet_signAndSendTransaction = (\<lambda>h. Inr (FinalExecutionOutcome ''key added''))\<rparr>"

definition refusing_wallet :: NearWalletBase where
  "refusing_wallet =
     \<lparr>manifest_id = ''example-wallet'',
      getAccounts = (\<lambda>h. Inr [alice]),
      wallet_signAndSendTransaction = (\<lambda>h. Inl (Rejected ''user declined''))\<rparr>"

definition example_keyPair :: KeyPair where
  "example_keyPair = \<lparr>getPublicKey = ''ed25519:public'', toString = ''ed25519:secret''\<rparr>"

definition example_params ::
  "NearWalletBase \<Rightarrow> string list option \<Rightarrow> string option \<Rightarrow> CreateAccessKeyParams" where
  "example_params w methods allowed =
     \<lparr>wallet = w, params_contractId = ''app.near'', methodNames = methods,
      params_allowance = allowed\<rparr>"

text \<open>Batches for the key of three methods, and the methods an event submits.\<close>

definition voting_batch :: "SignAndSendTransactionParams list" where
  "voting_batch = [call_tx ''app.near'' ''vote'', call_tx ''app.near'' ''like'']"

definition failing_batch :: "SignAndSendTransactionParams list" where
  "failing_batch =
     [call_tx ''app.near'' ''vote'', call_tx ''app.near'' ''fail'', call_tx ''app.near'' ''like'']"

fun submitted_methods :: "event \<Rightarrow> string list" where
  "submitted_methods (AccountSignAndSendTransaction s) =
     map (\<lambda>a. case a of functionCall m x g d \<Rightarrow> m) (submission_actions s)"
| "submitted_methods e = []"

section \<open>Evaluating the examples\<close>

lemmas example_defs =
  app_world_def batch_world_def truncated_world_def blank_world_def empty_world_def
  null_world_def empty_object_world_def unscoped_world_def unscoped_record_def
  string_methods_world_def string_methods_record_def no_action_tx_def
  app_key_def batch_key_def call_tx_def transfer_tx_def
  example_platform_def example_fromString_def example_BigInt_def example_network_def
  host_next_def host_next_batch_def host_signOut_def
  example_wallet_def refusing_wallet_def alice_def example_keyPair_def example_params_def

lemmas plugin_defs =
  shouldUseAccessKey_def signTransactionLocally_def local_submission_def rpcUrl_of_def
  signAndSendTransaction_def signAndSendTransactions_def signOut_def await_def
  getItem_def setItem_def removeItem_def AccessKeyData_json_def

lemma holds_key_app_world: "holds_key app_world app_key"
  by (simp add: holds_key_def app_world_def getItem_def setItem_def)

lemma holds_key_batch_world: "holds_key batch_world batch_key"
  by (simp add: holds_key_def batch_world_def getItem_def setItem_def)

lemma getItem_empty_world: "getItem empty_world k = None"
  by (simp add: getItem_def empty_world_def)

lemma getItem_truncated_world: "getItem truncated_world STORAGE_KEY = Some Unparsable"
  by (simp add: getItem_def truncated_world_def setItem_def)

lemma getItem_blank_world: "getItem blank_world STORAGE_KEY = Some EmptyText"
  by (simp add: getItem_def blank_world_def setItem_def)

section \<open>Properties of shouldUseAccessKey\<close>

lemma actions_allowed_credential:
  "actions_allowed (AccessKeyData_json k) as = Inr (list_all (is_allowed_call k) as)"
proof (induction as)
  case Nil
  show ?case by simp
next
  case (Cons a as)
  show ?case
  proof (cases a)
    case (FunctionCall p)
    have "JString (methodName p) \<in> JString ` set (allowedMethods k)
            \<longleftrightarrow> methodName p \<in> set (allowedMethods k)"
      by auto
    with FunctionCall Cons.IH show ?thesis
      by (simp add: AccessKeyData_json_def is_allowed_call_def)
  qed (simp_all add: is_allowed_call_def)
qed

lemma shouldUseAccessKey_credential:
  assumes "holds_key w k"
  shows "shouldUseAccessKey w tx = Inr (in_scope k tx)"
proof -
  have key: "getItem w STORAGE_KEY = Some (Parsed (AccessKeyData_json k))"
    using assms by (simp add: holds_key_def)
  have c: "js_get (AccessKeyData_json k) ''contractId'' = Inr (Some (JString (contractId k)))"
    by (simp add: AccessKeyData_json_def)
  show ?thesis
    by (auto simp: shouldUseAccessKey_def key c actions_allowed_credential in_scope_def)
qed

lemma shouldUseAccessKey_absent:
  assumes "getItem w STORAGE_KEY = None"
  shows "shouldUseAccessKey w tx = Inr False"
  using assms by (simp add: shouldUseAccessKey_def)

lemma in_scope_iff:
  "in_scope k tx \<longleftrightarrow>
     receiverId tx = contractId k
     \<and> (\<forall>a \<in> set (actions tx). \<exists>p. a = FunctionCall p \<and> methodName p \<in> set (allowedMethods k))"
proof -
  have "is_allowed_call k a \<longleftrightarrow> (\<exists>p. a = FunctionCall p \<and> methodName p \<in> set (allowedMethods k))"
    for a
    by (cases a) (simp_all add: is_allowed_call_def)
  then show ?thesis
    by (simp add: in_scope_def list_all_iff)
qed

lemma shouldUseAccessKey_decided:
  "getItem w STORAGE_KEY = None \<or> holds_key w k \<Longrightarrow> \<exists>b. shouldUseAccessKey w tx = Inr b"
  using shouldUseAccessKey_credential shouldUseAccessKey_absent by blast

text \<open>
  C1. With a credential \<open>k\<close> in the store, \<open>shouldUseAccessKey\<close> returns true exactly
  when the request's receiver is the credential's contract and every action of the
  request is a function call of a method in the credential's list; with nothing in
  the store it returns false for every request.
\<close>

theorem shouldUseAccessKey_decides:
  "(holds_key w k \<longrightarrow>
      shouldUseAccessKey w tx =
        Inr (receiverId tx = contractId k
             \<and> (\<forall>a \<in> set (actions tx).
                   \<exists>p. a = FunctionCall p \<and> methodName p \<in> set (allowedMethods k))))
   \<and> (getItem w STORAGE_KEY = None \<longrightarrow> shouldUseAccessKey w tx = Inr False)"
  using shouldUseAccessKey_credential [of w k tx] shouldUseAccessKey_absent [of w tx]
  by (simp add: in_scope_iff)

theorem shouldUseAccessKey_decides_witness:
  "shouldUseAccessKey app_world (call_tx ''app.near'' ''vote'') = Inr True
   \<and> shouldUseAccessKey app_world (call_tx ''app.near'' ''comment'') = Inr False
   \<and> shouldUseAccessKey app_world (call_tx ''other.near'' ''vote'') = Inr False
   \<and> shouldUseAccessKey app_world transfer_tx = Inr False
   \<and> shouldUseAccessKey empty_world (call_tx ''app.near'' ''vote'') = Inr False"
proof -
  note present = shouldUseAccessKey_decides [of app_world app_key, THEN conjunct1, rule_format,
      OF holds_key_app_world]
  note absent = shouldUseAccessKey_decides [of empty_world app_key, THEN conjunct2, rule_format,
      OF getItem_empty_world]
  show ?thesis
    by (simp add: present absent call_tx_def transfer_tx_def app_key_def)
qed

subsection \<open>A store that is no credential\<close>

lemma shouldUseAccessKey_syntax_error:
  "getItem w STORAGE_KEY = Some Unparsable \<Longrightarrow> shouldUseAccessKey w tx = Inl SyntaxError"
  by (simp add: shouldUseAccessKey_def)

lemma shouldUseAccessKey_falsy:
  "getItem w STORAGE_KEY = None \<or> getItem w STORAGE_KEY = Some EmptyText
     \<Longrightarrow> shouldUseAccessKey w tx = Inr False"
  by (auto simp: shouldUseAccessKey_def)

text \<open>
  The text \<^verbatim>\<open>null\<close> parses, and the read of its \<^verbatim>\<open>contractId\<close> raises; a parsed value
  with no \<^verbatim>\<open>contractId\<close> equal to the receiver is refused without an error.
\<close>

lemma shouldUseAccessKey_null:
  "getItem w STORAGE_KEY = Some (Parsed JNull) \<Longrightarrow> shouldUseAccessKey w tx = Inl TypeError"
  by (simp add: shouldUseAccessKey_def)

lemma shouldUseAccessKey_other_contract:
  "getItem w STORAGE_KEY = Some (Parsed v) \<Longrightarrow> js_get v ''contractId'' = Inr c
     \<Longrightarrow> c \<noteq> Some (JString (receiverId tx)) \<Longrightarrow> shouldUseAccessKey w tx = Inr False"
  by (simp add: shouldUseAccessKey_def)

text \<open>
  A value whose \<^verbatim>\<open>contractId\<close> is the receiver of the request: the loop over the
  actions decides, and what it does depends on the value's \<^verbatim>\<open>allowedMethods\<close>.
\<close>

lemma js_includes_other:
  "(\<forall>xs. m \<noteq> Some (JArray xs)) \<Longrightarrow> (\<forall>s. m \<noteq> Some (JString s))
     \<Longrightarrow> js_includes m x = Inl TypeError"
  by (cases "(m, x)" rule: js_includes.cases) simp_all

lemma actions_allowed_array:
  assumes "js_get key ''allowedMethods'' = Inr (Some (JArray xs))"
  shows "actions_allowed key as
           = Inr (\<forall>a \<in> set as. \<exists>p. a = FunctionCall p \<and> JString (methodName p) \<in> set xs)"
proof (induction as)
  case Nil
  show ?case by simp
next
  case (Cons a as)
  then show ?case
    by (cases a) (simp_all add: assms)
qed

lemma actions_allowed_string:
  assumes "js_get key ''allowedMethods'' = Inr (Some (JString s))"
  shows "actions_allowed key as
           = Inr (\<forall>a \<in> set as. \<exists>p. a = FunctionCall p \<and> sublist (methodName p) s)"
proof (induction as)
  case Nil
  show ?case by simp
next
  case (Cons a as)
  then show ?case
    by (cases a) (simp_all add: assms)
qed

lemma actions_allowed_other:
  assumes "js_get key ''allowedMethods'' = Inr m"
    and "\<forall>xs. m \<noteq> Some (JArray xs)" and "\<forall>s. m \<noteq> Some (JString s)"
  shows "actions_allowed key as
           = (case as of
                [] \<Rightarrow> Inr True
              | FunctionCall p # rest \<Rightarrow> Inl TypeError
              | a # rest \<Rightarrow> Inr False)"
proof (cases as)
  case Nil
  then show ?thesis by simp
next
  case (Cons a rest)
  then show ?thesis
    by (cases a) (simp_all add: assms(1) js_includes_other [OF assms(2,3)])
qed

lemma shouldUseAccessKey_same_contract:
  assumes "getItem w STORAGE_KEY = Some (Parsed v)"
    and "js_get v ''contractId'' = Inr (Some (JString (receiverId tx)))"
  shows "shouldUseAccessKey w tx = actions_allowed v (actions tx)"
  using assms by (simp add: shouldUseAccessKey_def)

lemma shouldUseAccessKey_by_allowedMethods:
  assumes "getItem w STORAGE_KEY = Some (Parsed v)"
    and "js_get v ''contractId'' = Inr (Some (JString (receiverId tx)))"
    and "js_get v ''allowedMethods'' = Inr m"
  shows "shouldUseAccessKey w tx =
          (case m of
             Some (JArray xs) \<Rightarrow>
               Inr (\<forall>a \<in> set (actions tx).
                      \<exists>p. a = FunctionCall p \<and> JString (methodName p) \<in> set xs)
           | Some (JString s) \<Rightarrow>
               Inr (\<forall>a \<in> set (actions tx).
                      \<exists>p. a = FunctionCall p \<and> sublist (methodName p) s)
           | _ \<Rightarrow>
               (case actions tx of
                  [] \<Rightarrow> Inr True
                | FunctionCall p # rest \<Rightarrow> Inl TypeError
                | a # rest \<Rightarrow> Inr False))"
proof -
  note same = shouldUseAccessKey_same_contract [OF assms(1,2)]
  show ?thesis
  proof (cases m)
    case None
    with actions_allowed_other [OF assms(3)] same show ?thesis
      by simp
  next
    case (Some j)
    show ?thesis
    proof (cases j)
      case (JArray xs)
      with Some assms(3) same show ?thesis
        by (simp add: actions_allowed_array)
    next
      case (JString s)
      with Some assms(3) same show ?thesis
        by (simp add: actions_allowed_string)
    qed (use Some assms(3) same in \<open>simp_all add: actions_allowed_other\<close>)
  qed
qed

text \<open>Every state of the entry falls under one of the cases above.\<close>

lemma stored_cases:
  "getItem w STORAGE_KEY = None
   \<or> getItem w STORAGE_KEY = Some EmptyText
   \<or> getItem w STORAGE_KEY = Some Unparsable
   \<or> getItem w STORAGE_KEY = Some (Parsed JNull)
   \<or> (\<exists>v c. getItem w STORAGE_KEY = Some (Parsed v) \<and> js_get v ''contractId'' = Inr c
          \<and> c \<noteq> Some (JString (receiverId tx)))
   \<or> (\<exists>v m. getItem w STORAGE_KEY = Some (Parsed v)
          \<and> js_get v ''contractId'' = Inr (Some (JString (receiverId tx)))
          \<and> js_get v ''allowedMethods'' = Inr m)"
proof (cases "getItem w STORAGE_KEY")
  case None
  then show ?thesis by simp
next
  case (Some t)
  show ?thesis
  proof (cases t)
    case (Parsed v)
    show ?thesis
    proof (cases "v = JNull")
      case True
      with Some Parsed show ?thesis by simp
    next
      case False
      then obtain c m where "js_get v ''contractId'' = Inr c" "js_get v ''allowedMethods'' = Inr m"
        by (cases v) simp_all
      with Some Parsed show ?thesis
        by (cases "c = Some (JString (receiverId tx))") auto
    qed
  qed (use Some in simp_all)
qed

text \<open>
  C2, as the code has it. Stored data that is no credential is not taken for an absent
  one; what the check does depends on the data, and every state of the entry falls
  under one of these cases:
  \<^item> a text that does not parse: the check raises the parser's \<^verbatim>\<open>SyntaxError\<close>;
  \<^item> the text \<^verbatim>\<open>null\<close>: the check raises \<^verbatim>\<open>TypeError\<close>;
  \<^item> a missing entry or the empty string: the check answers false;
  \<^item> another parsed value whose \<^verbatim>\<open>contractId\<close> is not the string that is the receiver
    of the request (a value without \<^verbatim>\<open>contractId\<close> among them): the check answers false;
  \<^item> a parsed value whose \<^verbatim>\<open>contractId\<close> is the receiver: with an array as
    \<^verbatim>\<open>allowedMethods\<close> the check answers whether every action is a function call whose
    method name is an element of it; with a string, whether every action is a function
    call whose method name is a part of it; with anything else or nothing, it answers
    true for a request without actions, false when the first action is no function
    call, and raises \<^verbatim>\<open>TypeError\<close> when the first action is a function call.

  Whenever the check raises, \<open>signAndSendTransaction\<close> rejects with the same error and
  the world is as before: nothing is signed, and the continuation is not called.
\<close>

theorem shouldUseAccessKey_not_a_credential:
  "(getItem w STORAGE_KEY = Some Unparsable \<longrightarrow> shouldUseAccessKey w tx = Inl SyntaxError)
   \<and> (getItem w STORAGE_KEY = Some (Parsed JNull) \<longrightarrow> shouldUseAccessKey w tx = Inl TypeError)
   \<and> (getItem w STORAGE_KEY = None \<or> getItem w STORAGE_KEY = Some EmptyText \<longrightarrow>
        shouldUseAccessKey w tx = Inr False)
   \<and> (\<forall>v c. getItem w STORAGE_KEY = Some (Parsed v) \<longrightarrow> js_get v ''contractId'' = Inr c \<longrightarrow>
          c \<noteq> Some (JString (receiverId tx)) \<longrightarrow> shouldUseAccessKey w tx = Inr False)
   \<and> (\<forall>v m. getItem w STORAGE_KEY = Some (Parsed v) \<longrightarrow>
          js_get v ''contractId'' = Inr (Some (JString (receiverId tx))) \<longrightarrow>
          js_get v ''allowedMethods'' = Inr m \<longrightarrow>
          shouldUseAccessKey w tx =
            (case m of
               Some (JArray xs) \<Rightarrow>
                 Inr (\<forall>a \<in> set (actions tx).
                        \<exists>p. a = FunctionCall p \<and> JString (methodName p) \<in> set xs)
             | Some (JString s) \<Rightarrow>
                 Inr (\<forall>a \<in> set (actions tx).
                        \<exists>p. a = FunctionCall p \<and> sublist (methodName p) s)
             | _ \<Rightarrow>
                 (case actions tx of
                    [] \<Rightarrow> Inr True
                  | FunctionCall p # rest \<Rightarrow> Inl TypeError
                  | a # rest \<Rightarrow> Inr False)))
   \<and> (\<forall>e. shouldUseAccessKey w tx = Inl e \<longrightarrow>
          signAndSendTransaction pf tx next w = (Inl e, w))
   \<and> (getItem w STORAGE_KEY = None
      \<or> getItem w STORAGE_KEY = Some EmptyText
      \<or> getItem w STORAGE_KEY = Some Unparsable
      \<or> getItem w STORAGE_KEY = Some (Parsed JNull)
      \<or> (\<exists>v c. getItem w STORAGE_KEY = Some (Parsed v) \<and> js_get v ''contractId'' = Inr c
             \<and> c \<noteq> Some (JString (receiverId tx)))
      \<or> (\<exists>v m. getItem w STORAGE_KEY = Some (Parsed v)
             \<and> js_get v ''contractId'' = Inr (Some (JString (receiverId tx)))
             \<and> js_get v ''allowedMethods'' = Inr m))"
proof -
  have rejects: "signAndSendTransaction pf tx next w = (Inl e, w)"
    if "shouldUseAccessKey w tx = Inl e" for e
    using that by (simp add: signAndSendTransaction_def)
  show ?thesis
    using shouldUseAccessKey_syntax_error [of w tx] shouldUseAccessKey_null [of w tx]
      shouldUseAccessKey_falsy [of w tx] shouldUseAccessKey_other_contract [of w _ _ tx]
      shouldUseAccessKey_by_allowedMethods [of w _ tx] rejects stored_cases [of w tx]
    by (intro conjI allI impI)
qed

theorem shouldUseAccessKey_not_a_credential_witness:
  "shouldUseAccessKey truncated_world (call_tx ''app.near'' ''vote'') = Inl SyntaxError
   \<and> signAndSendTransaction example_platform (call_tx ''app.near'' ''vote'') host_next
        truncated_world = (Inl SyntaxError, truncated_world)
   \<and> shouldUseAccessKey null_world (call_tx ''app.near'' ''vote'') = Inl TypeError
   \<and> shouldUseAccessKey blank_world (call_tx ''app.near'' ''vote'') = Inr False
   \<and> shouldUseAccessKey empty_object_world (call_tx ''app.near'' ''vote'') = Inr False
   \<and> shouldUseAccessKey unscoped_world (call_tx ''app.near'' ''vote'') = Inl TypeError
   \<and> shouldUseAccessKey unscoped_world transfer_tx = Inr False
   \<and> shouldUseAccessKey unscoped_world no_action_tx = Inr True
   \<and> shouldUseAccessKey string_methods_world (call_tx ''app.near'' ''ot'') = Inr True
   \<and> shouldUseAccessKey string_methods_world (call_tx ''app.near'' ''comment'') = Inr False
   \<and> shouldUseAccessKey app_world (call_tx ''app.near'' ''vote'') = Inr True"
proof -
  let ?vote = "call_tx ''app.near'' ''vote''"
  note inst = shouldUseAccessKey_not_a_credential [where pf = example_platform]
  have truncated: "shouldUseAccessKey truncated_world ?vote = Inl SyntaxError"
    using inst [of truncated_world ?vote] getItem_truncated_world by blast
  have rejected: "signAndSendTransaction example_platform ?vote host_next truncated_world
                    = (Inl SyntaxError, truncated_world)"
    using inst [of truncated_world ?vote host_next] truncated by blast
  have "getItem null_world STORAGE_KEY = Some (Parsed JNull)"
    by (simp add: null_world_def getItem_def setItem_def)
  with inst [of null_world ?vote] have null: "shouldUseAccessKey null_world ?vote = Inl TypeError"
    by blast
  have blank: "shouldUseAccessKey blank_world ?vote = Inr False"
    using inst [of blank_world ?vote] getItem_blank_world by blast
  have "getItem empty_object_world STORAGE_KEY = Some (Parsed (JObject []))"
    "js_get (JObject []) ''contractId'' = Inr None"
    "None \<noteq> Some (JString (receiverId ?vote))"
    by (simp_all add: empty_object_world_def getItem_def setItem_def)
  with inst [of empty_object_world ?vote]
  have empty: "shouldUseAccessKey empty_object_world ?vote = Inr False"
    by blast
  have unscoped: "getItem unscoped_world STORAGE_KEY = Some (Parsed unscoped_record)"
    "js_get unscoped_record ''contractId'' = Inr (Some (JString ''app.near''))"
    "js_get unscoped_record ''allowedMethods'' = Inr None"
    by (simp_all add: unscoped_world_def unscoped_record_def getItem_def setItem_def)
  have receivers: "receiverId ?vote = ''app.near''" "receiverId transfer_tx = ''app.near''"
    "receiverId no_action_tx = ''app.near''" "receiverId (call_tx ''app.near'' ''ot'') = ''app.near''"
    "receiverId (call_tx ''app.near'' ''comment'') = ''app.near''"
    by (simp_all add: call_tx_def transfer_tx_def no_action_tx_def)
  from inst [of unscoped_world ?vote] unscoped receivers
  have no_methods: "shouldUseAccessKey unscoped_world ?vote = Inl TypeError"
    by (simp add: call_tx_def)
  from inst [of unscoped_world transfer_tx] unscoped receivers
  have no_call: "shouldUseAccessKey unscoped_world transfer_tx = Inr False"
    by (simp add: transfer_tx_def)
  from inst [of unscoped_world no_action_tx] unscoped receivers
  have no_action: "shouldUseAccessKey unscoped_world no_action_tx = Inr True"
    by (simp add: no_action_tx_def)
  have stringy: "getItem string_methods_world STORAGE_KEY = Some (Parsed string_methods_record)"
    "js_get string_methods_record ''contractId'' = Inr (Some (JString ''app.near''))"
    "js_get string_methods_record ''allowedMethods'' = Inr (Some (JString ''vote,like''))"
    by (simp_all add: string_methods_world_def string_methods_record_def getItem_def setItem_def)
  from inst [of string_methods_world "call_tx ''app.near'' ''ot''"] stringy receivers
  have part: "shouldUseAccessKey string_methods_world (call_tx ''app.near'' ''ot'') = Inr True"
    by (simp add: call_tx_def sublist_Cons_right)
  from inst [of string_methods_world "call_tx ''app.near'' ''comment''"] stringy receivers
  have no_part:
    "shouldUseAccessKey string_methods_world (call_tx ''app.near'' ''comment'') = Inr False"
    by (simp add: call_tx_def sublist_Cons_right)
  have whole: "getItem app_world STORAGE_KEY = Some (Parsed (AccessKeyData_json app_key))"
    "js_get (AccessKeyData_json app_key) ''contractId'' = Inr (Some (JString ''app.near''))"
    "js_get (AccessKeyData_json app_key) ''allowedMethods''
       = Inr (Some (JArray [JString ''vote'']))"
    by (simp_all add: app_world_def app_key_def AccessKeyData_json_def getItem_def setItem_def)
  from inst [of app_world ?vote] whole receivers
  have credential: "shouldUseAccessKey app_world ?vote = Inr True"
    by (simp add: call_tx_def)
  from truncated rejected null blank empty no_methods no_call no_action part no_part credential
  show ?thesis
    by blast
qed

text \<open>
  The claim as first stated fails: on a truncated record the check does not answer
  false, it raises.
\<close>

theorem shouldUseAccessKey_truncated_raises:
  "shouldUseAccessKey truncated_world (call_tx ''app.near'' ''vote'') = Inl SyntaxError
   \<and> shouldUseAccessKey truncated_world (call_tx ''app.near'' ''vote'') \<noteq> Inr False"
  by (simp add: plugin_defs example_defs)

subsection \<open>Only function calls pass the check\<close>

lemma actions_allowed_True:
  "actions_allowed key as = Inr True \<Longrightarrow> \<forall>a \<in> set as. \<exists>p. a = FunctionCall p"
proof (induction key as rule: actions_allowed.induct)
  case (2 key p rest)
  then show ?case
    by (auto split: sum.splits if_splits)
qed simp_all

lemma shouldUseAccessKey_True_actions:
  "shouldUseAccessKey w tx = Inr True \<Longrightarrow> \<forall>a \<in> set (actions tx). \<exists>p. a = FunctionCall p"
  by (auto simp: shouldUseAccessKey_def split: if_splits sum.splits dest: actions_allowed_True)

lemma translate_action_FunctionCall: "translate_action bigint (FunctionCall p) \<noteq> Inl (Error msg)"
  by (simp split: option.splits)

lemma map_actions_FunctionCalls:
  "\<forall>a \<in> set as. \<exists>p. a = FunctionCall p \<Longrightarrow> map_actions bigint as \<noteq> Inl (Error msg)"
proof (induction as)
  case Nil
  show ?case by simp
next
  case (Cons a as)
  then obtain p where a: "a = FunctionCall p" by auto
  from Cons have "map_actions bigint as \<noteq> Inl (Error msg)" by simp
  with a translate_action_FunctionCall [of bigint p msg] show ?case
    by (auto split: sum.splits)
qed

text \<open>
  C6. When \<open>shouldUseAccessKey\<close> has answered true for a request,
  \<open>signAndSendTransaction\<close> takes the local path, and every action of the request is
  a function call, so the translation of its actions never takes the branch that
  raises \<^verbatim>\<open>Unsupported action type\<close>: neither a single action nor the whole list
  translates to an \<open>Error\<close>.
\<close>

theorem unsupported_action_unreachable:
  assumes "shouldUseAccessKey w tx = Inr True"
  shows "signAndSendTransaction pf tx next w = signTransactionLocally pf tx w
         \<and> (\<forall>a \<in> set (actions tx).
               (\<exists>p. a = FunctionCall p)
               \<and> (\<forall>msg. translate_action (BigInt pf) a \<noteq> Inl (Error msg)))
         \<and> (\<forall>msg. map_actions (BigInt pf) (actions tx) \<noteq> Inl (Error msg))"
proof -
  have entered: "signAndSendTransaction pf tx next w = signTransactionLocally pf tx w"
    using assms by (simp add: signAndSendTransaction_def)
  have calls: "\<forall>a \<in> set (actions tx). \<exists>p. a = FunctionCall p"
    using assms by (rule shouldUseAccessKey_True_actions)
  have each: "translate_action (BigInt pf) a \<noteq> Inl (Error msg)"
    if "a \<in> set (actions tx)" for a msg
  proof -
    from calls that obtain p where "a = FunctionCall p"
      by blast
    with translate_action_FunctionCall [of "BigInt pf" p msg] show ?thesis
      by blast
  qed
  have whole: "map_actions (BigInt pf) (actions tx) \<noteq> Inl (Error msg)" for msg
    using calls by (rule map_actions_FunctionCalls)
  from entered calls each whole show ?thesis
    by blast
qed

theorem unsupported_action_unreachable_witness:
  "shouldUseAccessKey app_world (call_tx ''app.near'' ''vote'') = Inr True
   \<and> (\<forall>msg. map_actions (BigInt example_platform) (actions (call_tx ''app.near'' ''vote''))
              \<noteq> Inl (Error msg))
   \<and> map_actions (BigInt example_platform) (actions (call_tx ''app.near'' ''vote''))
       = Inr [functionCall ''vote'' (JObject []) 30000000000000 0]"
proof -
  have allowed: "shouldUseAccessKey app_world (call_tx ''app.near'' ''vote'') = Inr True"
    by (simp add: plugin_defs example_defs)
  have "map_actions (BigInt example_platform) (actions (call_tx ''app.near'' ''vote''))
       = Inr [functionCall ''vote'' (JObject []) 30000000000000 0]"
    by (simp add: example_defs)
  with allowed
    unsupported_action_unreachable [OF allowed, of example_platform host_next, THEN conjunct2]
  show ?thesis
    by blast
qed

section \<open>Properties of signOut\<close>

lemma signOut_next:
  "signOut (Some next) w =
     (next (trace w @ [Next]),
      w\<lparr>localStorage := (localStorage w)(STORAGE_KEY := None), trace := trace w @ [Next]\<rparr>)"
  by (simp add: signOut_def removeItem_def await_def)

lemma signAndSendTransaction_absent:
  "getItem w STORAGE_KEY = None \<Longrightarrow> signAndSendTransaction pf tx next w = await Next next w"
  by (simp add: signAndSendTransaction_def shouldUseAccessKey_absent)

text \<open>
  C9. Whatever the store holds, \<open>signOut\<close> with the host's continuation removes the
  entry and then calls the continuation, whose answer it returns; the call is the one
  event of the operation, made also when the store was empty before. Afterwards the
  entry is absent, and every request is handed to the host's continuation.
\<close>

theorem signOut_clears_then_falls_back:
  "signOut (Some next) w =
     (next (trace w @ [Next]),
      w\<lparr>localStorage := (localStorage w)(STORAGE_KEY := None), trace := trace w @ [Next]\<rparr>)
   \<and> getItem (snd (signOut (Some next) w)) STORAGE_KEY = None
   \<and> signAndSendTransaction pf tx next' (snd (signOut (Some next) w))
       = await Next next' (snd (signOut (Some next) w))"
proof -
  have "getItem (snd (signOut (Some next) w)) STORAGE_KEY = None"
    by (simp add: signOut_next getItem_def)
  with signOut_next [of "next" w] signAndSendTransaction_absent show ?thesis
    by blast
qed

theorem signOut_clears_then_falls_back_witness:
  "fst (signAndSendTransaction example_platform (call_tx ''app.near'' ''vote'') host_next
          app_world) = Inr (FinalExecutionOutcome ''vote'')
   \<and> fst (signOut (Some host_signOut) app_world) = Inr ()
   \<and> getItem (snd (signOut (Some host_signOut) app_world)) STORAGE_KEY = None
   \<and> fst (signAndSendTransaction example_platform (call_tx ''app.near'' ''vote'') host_next
            (snd (signOut (Some host_signOut) app_world)))
       = Inr (FinalExecutionOutcome ''signed by the wallet'')
   \<and> trace (snd (signAndSendTransaction example_platform (call_tx ''app.near'' ''vote'')
                    host_next (snd (signOut (Some host_signOut) app_world)))) = [Next, Next]
   \<and> fst (signOut (Some host_signOut) empty_world) = Inr ()
   \<and> trace (snd (signOut (Some host_signOut) empty_world)) = [Next]"
proof -
  let ?vote = "call_tx ''app.near'' ''vote''"
  let ?out = "snd (signOut (Some host_signOut) app_world)"
  have before: "fst (signAndSendTransaction example_platform ?vote host_next app_world)
                  = Inr (FinalExecutionOutcome ''vote'')"
    by (simp add: plugin_defs example_defs)
  note present = signOut_clears_then_falls_back [of host_signOut app_world example_platform
      ?vote host_next]
  note absent = signOut_clears_then_falls_back [of host_signOut empty_world example_platform
      ?vote host_next]
  from present have answer: "fst (signOut (Some host_signOut) app_world) = Inr ()"
    by (simp add: host_signOut_def)
  from present have gone: "getItem ?out STORAGE_KEY = None"
    by blast
  from present have events: "trace ?out = [Next]"
    by (simp add: app_world_def setItem_def empty_world_def)
  from present have after:
    "signAndSendTransaction example_platform ?vote host_next ?out = await Next host_next ?out"
    by blast
  have handed: "fst (signAndSendTransaction example_platform ?vote host_next ?out)
                  = Inr (FinalExecutionOutcome ''signed by the wallet'')"
    by (simp add: after await_def host_next_def)
  have events': "trace (snd (signAndSendTransaction example_platform ?vote host_next ?out))
                   = [Next, Next]"
    by (simp add: after await_def events)
  from absent have answer': "fst (signOut (Some host_signOut) empty_world) = Inr ()"
    by (simp add: host_signOut_def)
  from absent have events'': "trace (snd (signOut (Some host_signOut) empty_world)) = [Next]"
    by (simp add: empty_world_def)
  from before answer gone handed events' answer' events'' show ?thesis
    by blast
qed

section \<open>Properties of signAndSendTransactions\<close>

lemma every_True_iff: "every f xs = Inr True \<longleftrightarrow> (\<forall>x \<in> set xs. f x = Inr True)"
  by (induction xs) (auto split: sum.splits)

lemma every_decided:
  "\<forall>x \<in> set xs. \<exists>b. f x = Inr b \<Longrightarrow> every f xs = Inr (\<forall>x \<in> set xs. f x = Inr True)"
  by (induction xs) (auto split: sum.splits)

lemma local_submission_trace [simp]:
  "local_submission pf (w\<lparr>trace := t\<rparr>) = local_submission pf w"
  by (rule ext) (simp add: local_submission_def getItem_def)

lemma signTransactionLocally_cases:
  "signTransactionLocally pf tx w =
     (case local_submission pf w tx of
        Inl e \<Rightarrow> (Inl e, w)
      | Inr s \<Rightarrow>
          (account_signAndSendTransaction pf (trace w @ [AccountSignAndSendTransaction s]),
           w\<lparr>trace := trace w @ [AccountSignAndSendTransaction s]\<rparr>))"
  by (simp add: signTransactionLocally_def await_def split: sum.splits)

text \<open>
  C10. On the empty list \<open>signAndSendTransactions\<close> returns the empty list of
  outcomes and leaves the world as it was, whatever the store holds and whatever the
  collaborators would answer: no event is recorded (no call of the continuation, no
  submission), and the answer does not depend on the store.
\<close>

theorem signAndSendTransactions_empty:
  "signAndSendTransactions pf [] next w = (Inr [], w)"
  by (simp add: signAndSendTransactions_def)

theorem signAndSendTransactions_empty_witness:
  "signAndSendTransactions example_platform [] host_next_batch truncated_world
     = (Inr [], truncated_world)
   \<and> signAndSendTransactions example_platform [] host_next_batch empty_world
       = (Inr [], empty_world)
   \<and> signAndSendTransactions example_platform [] host_next_batch app_world
       = (Inr [], app_world)"
  using signAndSendTransactions_empty [of example_platform host_next_batch truncated_world]
    signAndSendTransactions_empty [of example_platform host_next_batch empty_world]
    signAndSendTransactions_empty [of example_platform host_next_batch app_world]
  by (intro conjI)

subsection \<open>The loop of the batch\<close>

text \<open>
  A run of the loop from the world \<open>w0\<close> with the results \<open>rs\<close> so far. The events it
  adds are submissions, the store is not written. When it returns, every request was
  submitted, in the order of the list, and the outcomes are the network's answers in
  that order. When it raises \<open>e\<close>, a request \<open>k\<close> is the first that failed: those before
  it were submitted and answered, request \<open>k\<close> raised \<open>e\<close> before its submission or the
  network answered its submission with \<open>e\<close>, and nothing was submitted after it.
\<close>

lemma sign_each_run:
  assumes "sign_each pf txs rs w0 = (r, w')"
  shows "\<exists>subs. trace w' = trace w0 @ map AccountSignAndSendTransaction subs
           \<and> localStorage w' = localStorage w0
           \<and> (case r of
                 Inr results \<Rightarrow>
                   \<exists>outs. results = rs @ outs
                     \<and> map (local_submission pf w0) txs = map Inr subs
                     \<and> answers (account_signAndSendTransaction pf) (trace w0) subs = map Inr outs
               | Inl e \<Rightarrow>
                   \<exists>k outs. k < length txs
                     \<and> map (local_submission pf w0) (take k txs) = map Inr (take k subs)
                     \<and> answers (account_signAndSendTransaction pf) (trace w0) (take k subs)
                         = map Inr outs
                     \<and> (length subs = k \<and> local_submission pf w0 (txs ! k) = Inl e
                        \<or> length subs = Suc k
                          \<and> local_submission pf w0 (txs ! k) = Inr (subs ! k)
                          \<and> account_signAndSendTransaction pf
                               (trace w0 @ map AccountSignAndSendTransaction subs) = Inl e))"
  using assms
proof (induction txs arbitrary: rs w0 r w')
  case Nil
  then show ?case by auto
next
  case (Cons tx txs)
  let ?net = "account_signAndSendTransaction pf"
  show ?case
  proof (cases "local_submission pf w0 tx")
    case (Inl e)
    with Cons.prems have "r = Inl e" "w' = w0"
      by (simp_all add: signTransactionLocally_cases)
    with Inl show ?thesis
      by (intro exI [of _ "[]"]) (auto intro!: exI [of _ 0])
  next
    case (Inr s)
    let ?w1 = "w0\<lparr>trace := trace w0 @ [AccountSignAndSendTransaction s]\<rparr>"
    show ?thesis
    proof (cases "?net (trace w0 @ [AccountSignAndSendTransaction s])")
      case (Inl e)
      with Inr Cons.prems have "r = Inl e" "w' = ?w1"
        by (simp_all add: signTransactionLocally_cases)
      with Inr Inl show ?thesis
        by (intro exI [of _ "[s]"]) (auto intro!: exI [of _ 0])
    next
      case out: (Inr out)
      with Inr Cons.prems have run: "sign_each pf txs (rs @ [out]) ?w1 = (r, w')"
        by (simp add: signTransactionLocally_cases)
      from Cons.IH [OF run] obtain subs where
        tr: "trace w' = trace ?w1 @ map AccountSignAndSendTransaction subs"
        and st: "localStorage w' = localStorage ?w1"
        and res: "case r of
                 Inr results \<Rightarrow>
                   \<exists>outs. results = (rs @ [out]) @ outs
                     \<and> map (local_submission pf ?w1) txs = map Inr subs
                     \<and> answers ?net (trace ?w1) subs = map Inr outs
               | Inl e \<Rightarrow>
                   \<exists>k outs. k < length txs
                     \<and> map (local_submission pf ?w1) (take k txs) = map Inr (take k subs)
                     \<and> answers ?net (trace ?w1) (take k subs) = map Inr outs
                     \<and> (length subs = k \<and> local_submission pf ?w1 (txs ! k) = Inl e
                        \<or> length subs = Suc k
                          \<and> local_submission pf ?w1 (txs ! k) = Inr (subs ! k)
                          \<and> ?net (trace ?w1 @ map AccountSignAndSendTransaction subs) = Inl e)"
        by blast
      show ?thesis
      proof (cases r)
        case (Inr results)
        with res obtain outs where "results = (rs @ [out]) @ outs"
          "map (local_submission pf w0) txs = map Inr subs"
          "answers ?net (trace w0 @ [AccountSignAndSendTransaction s]) subs = map Inr outs"
          by auto
        with tr st Inr out \<open>local_submission pf w0 tx = Inr s\<close> show ?thesis
          by (intro exI [of _ "s # subs"]) (auto intro!: exI [of _ "out # outs"])
      next
        case (Inl e)
        with res obtain k outs where k: "k < length txs"
          and pre: "map (local_submission pf w0) (take k txs) = map Inr (take k subs)"
          and ans: "answers ?net (trace w0 @ [AccountSignAndSendTransaction s]) (take k subs)
                      = map Inr outs"
          and last: "length subs = k \<and> local_submission pf w0 (txs ! k) = Inl e
                        \<or> length subs = Suc k
                          \<and> local_submission pf w0 (txs ! k) = Inr (subs ! k)
                          \<and> ?net (trace w0 @ AccountSignAndSendTransaction s
                                # map AccountSignAndSendTransaction subs) = Inl e"
          by auto
        with tr st Inl out \<open>local_submission pf w0 tx = Inr s\<close> show ?thesis
          by (intro exI [of _ "s # subs"])
            (auto intro!: exI [of _ "Suc k"] exI [of _ "out # outs"])
      qed
    qed
  qed
qed

subsection \<open>All or nothing\<close>

text \<open>
  \<^verbatim>\<open>every\<close> is decided by the first request on which the check does not answer true.
\<close>

lemma every_first_False:
  "k < length xs \<Longrightarrow> \<forall>i<k. f (xs ! i) = Inr True \<Longrightarrow> f (xs ! k) = Inr False
     \<Longrightarrow> every f xs = Inr False"
proof (induction xs arbitrary: k)
  case Nil
  then show ?case by simp
next
  case (Cons x xs)
  show ?case
  proof (cases k)
    case 0
    with Cons.prems show ?thesis by simp
  next
    case (Suc j)
    with Cons.prems have "f x = Inr True" "j < length xs" "\<forall>i<j. f (xs ! i) = Inr True"
      "f (xs ! j) = Inr False"
      by auto
    with Cons.IH [of j] show ?thesis by simp
  qed
qed

lemma every_first_error:
  "k < length xs \<Longrightarrow> \<forall>i<k. f (xs ! i) = Inr True \<Longrightarrow> f (xs ! k) = Inl e
     \<Longrightarrow> every f xs = Inl e"
proof (induction xs arbitrary: k)
  case Nil
  then show ?case by simp
next
  case (Cons x xs)
  show ?case
  proof (cases k)
    case 0
    with Cons.prems show ?thesis by simp
  next
    case (Suc j)
    with Cons.prems have "f x = Inr True" "j < length xs" "\<forall>i<j. f (xs ! i) = Inr True"
      "f (xs ! j) = Inl e"
      by auto
    with Cons.IH [of j] show ?thesis by simp
  qed
qed

lemma every_not_all:
  "\<exists>x \<in> set xs. f x \<noteq> Inr True \<Longrightarrow> every f xs = Inr False \<or> (\<exists>e. every f xs = Inl e)"
  by (induction xs) (auto split: sum.splits)

lemma signAndSendTransactions_local:
  assumes "\<forall>tx \<in> set txs. shouldUseAccessKey w tx = Inr True"
  shows "signAndSendTransactions pf txs next w = sign_each pf txs [] w"
proof -
  from assms have "every (shouldUseAccessKey w) txs = Inr True"
    by (simp add: every_True_iff)
  then show ?thesis
    by (simp add: signAndSendTransactions_def)
qed

lemma signAndSendTransactions_refused:
  assumes "every (shouldUseAccessKey w) txs = Inr False"
  shows "signAndSendTransactions pf txs next w
           = (next (trace w @ [Next]), w\<lparr>trace := trace w @ [Next]\<rparr>)"
  using assms by (simp add: signAndSendTransactions_def await_def)

lemma signAndSendTransactions_raised:
  assumes "every (shouldUseAccessKey w) txs = Inl e"
  shows "signAndSendTransactions pf txs next w = (Inl e, w)"
  using assms by (simp add: signAndSendTransactions_def)

text \<open>
  C3, as the code has it. Let a call of \<open>signAndSendTransactions\<close> end with the result
  \<open>r\<close> in the world \<open>w'\<close>.
  \<^item> When the check answers true for every request, the batch is signed locally: the
    events added are the submissions of the requests, in the order of the batch and
    with no call of the continuation, and the store is not written. A returned list
    holds the network's answers to all of them; an error \<open>e\<close> is that of the first
    request that failed, before or at its submission, and nothing is submitted after it.
  \<^item> Otherwise the first request on which the check does not answer true decides. When
    the check answers false for it, the one event is the call of the continuation and
    \<open>r\<close> is its answer. When the check raises \<open>e\<close> on it, \<open>r\<close> is that error and the
    world is as before: nothing is signed and the continuation is not called. In both
    cases no request is submitted locally.
  \<^item> With nothing or a whole credential in the store the check does not raise, and a
    batch with a request that is refused goes to the continuation.
\<close>

theorem signAndSendTransactions_all_or_nothing:
  assumes "signAndSendTransactions pf txs next w = (r, w')"
  shows "((\<forall>tx \<in> set txs. shouldUseAccessKey w tx = Inr True) \<longrightarrow>
            (\<exists>subs. trace w' = trace w @ map AccountSignAndSendTransaction subs
               \<and> localStorage w' = localStorage w
               \<and> (case r of
                     Inr results \<Rightarrow>
                       map (local_submission pf w) txs = map Inr subs
                       \<and> answers (account_signAndSendTransaction pf) (trace w) subs
                           = map Inr results
                   | Inl e \<Rightarrow>
                       \<exists>k outs. k < length txs
                         \<and> map (local_submission pf w) (take k txs) = map Inr (take k subs)
                         \<and> answers (account_signAndSendTransaction pf) (trace w) (take k subs)
                             = map Inr outs
                         \<and> (length subs = k \<and> local_submission pf w (txs ! k) = Inl e
                            \<or> length subs = Suc k
                              \<and> local_submission pf w (txs ! k) = Inr (subs ! k)
                              \<and> account_signAndSendTransaction pf
                                   (trace w @ map AccountSignAndSendTransaction subs)
                                  = Inl e))))
         \<and> (\<forall>k<length txs. (\<forall>i<k. shouldUseAccessKey w (txs ! i) = Inr True) \<longrightarrow>
               (shouldUseAccessKey w (txs ! k) = Inr False \<longrightarrow>
                  r = next (trace w @ [Next]) \<and> w' = w\<lparr>trace := trace w @ [Next]\<rparr>)
               \<and> (\<forall>e. shouldUseAccessKey w (txs ! k) = Inl e \<longrightarrow> r = Inl e \<and> w' = w))
         \<and> ((\<exists>tx \<in> set txs. shouldUseAccessKey w tx \<noteq> Inr True) \<longrightarrow>
               r = next (trace w @ [Next]) \<and> w' = w\<lparr>trace := trace w @ [Next]\<rparr>
               \<or> (\<exists>e. r = Inl e \<and> w' = w))
         \<and> ((getItem w STORAGE_KEY = None \<or> holds_key w k)
              \<and> (\<exists>tx \<in> set txs. shouldUseAccessKey w tx \<noteq> Inr True) \<longrightarrow>
               r = next (trace w @ [Next]) \<and> w' = w\<lparr>trace := trace w @ [Next]\<rparr>)"
proof -
  let ?check = "shouldUseAccessKey w"
  let ?fallback = "r = next (trace w @ [Next]) \<and> w' = w\<lparr>trace := trace w @ [Next]\<rparr>"
  have local: "\<exists>subs. trace w' = trace w @ map AccountSignAndSendTransaction subs
               \<and> localStorage w' = localStorage w
               \<and> (case r of
                     Inr results \<Rightarrow>
                       map (local_submission pf w) txs = map Inr subs
                       \<and> answers (account_signAndSendTransaction pf) (trace w) subs
                           = map Inr results
                   | Inl e \<Rightarrow>
                       \<exists>k outs. k < length txs
                         \<and> map (local_submission pf w) (take k txs) = map Inr (take k subs)
                         \<and> answers (account_signAndSendTransaction pf) (trace w) (take k subs)
                             = map Inr outs
                         \<and> (length subs = k \<and> local_submission pf w (txs ! k) = Inl e
                            \<or> length subs = Suc k
                              \<and> local_submission pf w (txs ! k) = Inr (subs ! k)
                              \<and> account_signAndSendTransaction pf
                                   (trace w @ map AccountSignAndSendTransaction subs)
                                  = Inl e))"
    if "\<forall>tx \<in> set txs. ?check tx = Inr True"
  proof -
    from assms signAndSendTransactions_local [OF that] have "sign_each pf txs [] w = (r, w')"
      by simp
    from sign_each_run [OF this] show ?thesis
      by (cases r) auto
  qed
  have refused: ?fallback if "every ?check txs = Inr False"
    using assms signAndSendTransactions_refused [OF that, of pf "next"] by simp
  have raised: "r = Inl e \<and> w' = w" if "every ?check txs = Inl e" for e
    using assms signAndSendTransactions_raised [OF that, of pf "next"] by simp
  have first: "(?check (txs ! k) = Inr False \<longrightarrow> ?fallback)
               \<and> (\<forall>e. ?check (txs ! k) = Inl e \<longrightarrow> r = Inl e \<and> w' = w)"
    if "k < length txs" "\<forall>i<k. ?check (txs ! i) = Inr True" for k
    using that refused raised every_first_False [of k txs ?check]
      every_first_error [of k txs ?check]
    by blast
  have some: "?fallback \<or> (\<exists>e. r = Inl e \<and> w' = w)"
    if "\<exists>tx \<in> set txs. ?check tx \<noteq> Inr True"
    using every_not_all [OF that] refused raised by blast
  have decided: ?fallback
    if "getItem w STORAGE_KEY = None \<or> holds_key w k"
      and "\<exists>tx \<in> set txs. ?check tx \<noteq> Inr True"
  proof -
    have "\<forall>tx \<in> set txs. \<exists>b. ?check tx = Inr b"
      using shouldUseAccessKey_decided [OF that(1)] by blast
    from every_decided [OF this] that(2) have "every ?check txs = Inr False"
      by auto
    then show ?thesis by (rule refused)
  qed
  from local first some decided show ?thesis
    by blast
qed

theorem signAndSendTransactions_all_or_nothing_witness:
  "(\<exists>subs. trace (snd (signAndSendTransactions example_platform voting_batch host_next_batch
                         batch_world))
             = trace batch_world @ map AccountSignAndSendTransaction subs
           \<and> localStorage (snd (signAndSendTransactions example_platform voting_batch
                                  host_next_batch batch_world)) = localStorage batch_world
           \<and> map (local_submission example_platform batch_world) voting_batch = map Inr subs
           \<and> answers (account_signAndSendTransaction example_platform) (trace batch_world) subs
               = map Inr [FinalExecutionOutcome ''vote'', FinalExecutionOutcome ''like''])
   \<and> signAndSendTransactions example_platform
         [call_tx ''app.near'' ''vote'', call_tx ''app.near'' ''comment''] host_next_batch
         app_world
       = (Inr [FinalExecutionOutcome ''signed by the wallet''],
          app_world\<lparr>trace := trace app_world @ [Next]\<rparr>)
   \<and> signAndSendTransactions example_platform
         [call_tx ''app.near'' ''vote'', call_tx ''other.near'' ''vote''] host_next_batch
         truncated_world
       = (Inl SyntaxError, truncated_world)"
proof -
  let ?vote = "call_tx ''app.near'' ''vote''"
  let ?run = "signAndSendTransactions example_platform voting_batch host_next_batch batch_world"
  let ?mixed = "[?vote, call_tx ''app.near'' ''comment'']"
  let ?run' = "signAndSendTransactions example_platform ?mixed host_next_batch app_world"
  let ?other = "[?vote, call_tx ''other.near'' ''vote'']"
  let ?run'' = "signAndSendTransactions example_platform ?other host_next_batch truncated_world"
  have allowed: "\<forall>tx \<in> set voting_batch. shouldUseAccessKey batch_world tx = Inr True"
    by (simp add: voting_batch_def plugin_defs example_defs)
  have outcomes: "fst ?run = Inr [FinalExecutionOutcome ''vote'', FinalExecutionOutcome ''like'']"
    by (simp add: voting_batch_def plugin_defs example_defs)
  have run: "?run = (Inr [FinalExecutionOutcome ''vote'', FinalExecutionOutcome ''like''], snd ?run)"
    using outcomes by (simp add: prod_eq_iff)
  from signAndSendTransactions_all_or_nothing [OF run, of app_key, THEN conjunct1] allowed
  have local: "\<exists>subs. trace (snd ?run)
             = trace batch_world @ map AccountSignAndSendTransaction subs
           \<and> localStorage (snd ?run) = localStorage batch_world
           \<and> map (local_submission example_platform batch_world) voting_batch = map Inr subs
           \<and> answers (account_signAndSendTransaction example_platform) (trace batch_world) subs
               = map Inr [FinalExecutionOutcome ''vote'', FinalExecutionOutcome ''like'']"
    by simp
  have run': "?run' = (fst ?run', snd ?run')"
    by simp
  have first: "shouldUseAccessKey app_world (?mixed ! 0) = Inr True"
    "shouldUseAccessKey app_world (?mixed ! 1) = Inr False"
    by (simp_all add: plugin_defs example_defs)
  then have before: "\<forall>i<1. shouldUseAccessKey app_world (?mixed ! i) = Inr True"
    by simp
  from signAndSendTransactions_all_or_nothing [OF run', of app_key, THEN conjunct2,
      THEN conjunct1, rule_format, of 1] before first(2)
  have "fst ?run' = host_next_batch (trace app_world @ [Next])
        \<and> snd ?run' = app_world\<lparr>trace := trace app_world @ [Next]\<rparr>"
    by simp
  then have fallback: "?run' = (Inr [FinalExecutionOutcome ''signed by the wallet''],
          app_world\<lparr>trace := trace app_world @ [Next]\<rparr>)"
    by (simp add: prod_eq_iff host_next_batch_def)
  have run'': "?run'' = (fst ?run'', snd ?run'')"
    by simp
  have raises: "shouldUseAccessKey truncated_world (?other ! 0) = Inl SyntaxError"
    by (simp add: shouldUseAccessKey_syntax_error getItem_truncated_world)
  from signAndSendTransactions_all_or_nothing [OF run'', of app_key, THEN conjunct2,
      THEN conjunct1, rule_format, of 0] raises
  have "fst ?run'' = Inl SyntaxError \<and> snd ?run'' = truncated_world"
    by simp
  then have rejected: "?run'' = (Inl SyntaxError, truncated_world)"
    by (simp add: prod_eq_iff)
  from local fallback rejected show ?thesis
    by blast
qed

text \<open>
  The claim as first stated fails. On the record that \<open>createAccessKey\<close> stores when it
  is called without method names, the check raises on a function call of the contract
  and answers false for a request to another contract; a batch of the two is not
  handed to the continuation: the call rejects, and no event is recorded.
\<close>

theorem signAndSendTransactions_not_forwarded:
  "shouldUseAccessKey unscoped_world (call_tx ''app.near'' ''vote'') = Inl TypeError
   \<and> shouldUseAccessKey unscoped_world (call_tx ''other.near'' ''vote'') = Inr False
   \<and> signAndSendTransactions example_platform
         [call_tx ''app.near'' ''vote'', call_tx ''other.near'' ''vote''] host_next_batch
         unscoped_world
       = (Inl TypeError, unscoped_world)
   \<and> trace unscoped_world = []"
  by (simp add: plugin_defs example_defs)

subsection \<open>In order, one after the other\<close>

text \<open>
  C7. For a batch that \<open>shouldUseAccessKey\<close> allows throughout, the events of
  \<open>signAndSendTransactions\<close> are submissions \<open>subs\<close>, the store apart. When it returns
  outcomes, \<open>subs\<close> are the submissions of all requests in the order of the batch, and
  the outcomes are the network's answers to them in that order, each given on the
  history that ends with its own submission. When it raises \<open>e\<close>, there is a request
  \<open>k\<close> such that the requests before \<open>k\<close> were submitted in order and answered with
  outcomes \<open>outs\<close>, which the caller does not get; request \<open>k\<close> raised \<open>e\<close> before or
  at its submission; and no request after \<open>k\<close> was submitted.
\<close>

theorem signAndSendTransactions_in_order:
  assumes "\<forall>tx \<in> set txs. shouldUseAccessKey w tx = Inr True"
    and "signAndSendTransactions pf txs next w = (r, w')"
  shows "\<exists>subs. trace w' = trace w @ map AccountSignAndSendTransaction subs
           \<and> (case r of
                 Inr results \<Rightarrow>
                   map (local_submission pf w) txs = map Inr subs
                   \<and> answers (account_signAndSendTransaction pf) (trace w) subs = map Inr results
               | Inl e \<Rightarrow>
                   \<exists>k outs. k < length txs
                     \<and> map (local_submission pf w) (take k txs) = map Inr (take k subs)
                     \<and> answers (account_signAndSendTransaction pf) (trace w) (take k subs)
                         = map Inr outs
                     \<and> (length subs = k \<and> local_submission pf w (txs ! k) = Inl e
                        \<or> length subs = Suc k
                          \<and> local_submission pf w (txs ! k) = Inr (subs ! k)
                          \<and> account_signAndSendTransaction pf
                               (trace w @ map AccountSignAndSendTransaction subs) = Inl e))"
proof -
  from assms(1) have "every (shouldUseAccessKey w) txs = Inr True"
    by (simp add: every_True_iff)
  with assms(2) have "sign_each pf txs [] w = (r, w')"
    by (simp add: signAndSendTransactions_def)
  from sign_each_run [OF this] show ?thesis
    by (cases r) auto
qed

theorem signAndSendTransactions_in_order_witness:
  "(\<exists>subs. trace (snd (signAndSendTransactions example_platform voting_batch host_next_batch
                         batch_world))
             = trace batch_world @ map AccountSignAndSendTransaction subs
           \<and> map (local_submission example_platform batch_world) voting_batch = map Inr subs
           \<and> answers (account_signAndSendTransaction example_platform) (trace batch_world) subs
               = map Inr [FinalExecutionOutcome ''vote'', FinalExecutionOutcome ''like''])
   \<and> (\<exists>subs. trace (snd (signAndSendTransactions example_platform failing_batch
                           host_next_batch batch_world))
               = trace batch_world @ map AccountSignAndSendTransaction subs
           \<and> (\<exists>k outs. k < length failing_batch
                 \<and> map (local_submission example_platform batch_world) (take k failing_batch)
                     = map Inr (take k subs)
                 \<and> answers (account_signAndSendTransaction example_platform)
                       (trace batch_world) (take k subs) = map Inr outs
                 \<and> (length subs = k
                      \<and> local_submission example_platform batch_world (failing_batch ! k)
                          = Inl (Rejected ''network'')
                    \<or> length subs = Suc k
                      \<and> local_submission example_platform batch_world (failing_batch ! k)
                          = Inr (subs ! k)
                      \<and> account_signAndSendTransaction example_platform
                           (trace batch_world @ map AccountSignAndSendTransaction subs)
                          = Inl (Rejected ''network''))))
   \<and> map submitted_methods
         (trace (snd (signAndSendTransactions example_platform failing_batch host_next_batch
                        batch_world)))
       = [[''vote''], [''fail'']]"
proof -
  have allowed: "\<forall>tx \<in> set voting_batch. shouldUseAccessKey batch_world tx = Inr True"
    by (simp add: voting_batch_def plugin_defs example_defs)
  have "fst (signAndSendTransactions example_platform voting_batch host_next_batch batch_world)
          = Inr [FinalExecutionOutcome ''vote'', FinalExecutionOutcome ''like'']"
    by (simp add: voting_batch_def plugin_defs example_defs)
  then have run: "signAndSendTransactions example_platform voting_batch host_next_batch
        batch_world
      = (Inr [FinalExecutionOutcome ''vote'', FinalExecutionOutcome ''like''],
         snd (signAndSendTransactions example_platform voting_batch host_next_batch
                batch_world))"
    by (simp add: prod_eq_iff)
  have allowed': "\<forall>tx \<in> set failing_batch. shouldUseAccessKey batch_world tx = Inr True"
    by (simp add: failing_batch_def plugin_defs example_defs)
  have "fst (signAndSendTransactions example_platform failing_batch host_next_batch batch_world)
          = Inl (Rejected ''network'')"
    by (simp add: failing_batch_def plugin_defs example_defs)
  then have run': "signAndSendTransactions example_platform failing_batch host_next_batch
        batch_world
      = (Inl (Rejected ''network''),
         snd (signAndSendTransactions example_platform failing_batch host_next_batch
                batch_world))"
    by (simp add: prod_eq_iff)
  have methods: "map submitted_methods
         (trace (snd (signAndSendTransactions example_platform failing_batch host_next_batch
                        batch_world)))
       = [[''vote''], [''fail'']]"
    by (simp add: failing_batch_def plugin_defs example_defs)
  from signAndSendTransactions_in_order [OF allowed run]
    signAndSendTransactions_in_order [OF allowed' run'] methods
  show ?thesis
    by simp
qed

section \<open>Properties of createAccessKey\<close>

lemma createAccessKey_cases:
  "createAccessKey params keyPair w =
     (case getAccounts (wallet params) (trace w @ [WalletGetAccounts]) of
        Inl e \<Rightarrow> (Inl e, w\<lparr>trace := trace w @ [WalletGetAccounts]\<rparr>)
      | Inr accounts \<Rightarrow>
          (case wallet_signAndSendTransaction (wallet params)
                  (registration_history w params keyPair accounts) of
             Inl e \<Rightarrow> (Inl e, w\<lparr>trace := registration_history w params keyPair accounts\<rparr>)
           | Inr result \<Rightarrow>
               (Inr result,
                w\<lparr>trace := registration_history w params keyPair accounts,
                   localStorage := (localStorage w)(STORAGE_KEY \<mapsto>
                     JSON_stringify_key (first_accountId accounts) (toString keyPair)
                       (params_contractId params) (methodNames params)
                       (or_default (params_allowance params) DEFAULT_ALLOWANCE))\<rparr>)))"
  by (simp add: createAccessKey_def await_def console_log_def setItem_def Let_def
      registration_history_def registration_def split: sum.splits)

lemma or_default_cases:
  "or_default x d = (case x of None \<Rightarrow> d | Some a \<Rightarrow> if a = [] then d else a)"
  by (cases x) simp_all

lemma or_default_idem: "or_default (Some (or_default x d)) d = or_default x d"
  by (cases x) simp_all

lemma DEFAULT_ALLOWANCE_value: "decimal_from 0 DEFAULT_ALLOWANCE = Some (10 ^ 24 div 4)"
  by (simp add: DEFAULT_ALLOWANCE_def)

text \<open>
  C5. When the wallet rejects the registration with \<open>e\<close>, \<open>createAccessKey\<close> rejects
  with the same \<open>e\<close>, and the store is as before the call: the calls of the wallet are
  all that happened.
\<close>

theorem createAccessKey_registration_fails:
  assumes "getAccounts (wallet params) (trace w @ [WalletGetAccounts]) = Inr accounts"
    and "wallet_signAndSendTransaction (wallet params)
           (registration_history w params keyPair accounts) = Inl e"
  shows "fst (createAccessKey params keyPair w) = Inl e
         \<and> localStorage (snd (createAccessKey params keyPair w)) = localStorage w
         \<and> trace (snd (createAccessKey params keyPair w))
             = registration_history w params keyPair accounts"
  using assms by (simp add: createAccessKey_cases)

theorem createAccessKey_registration_fails_witness:
  "fst (createAccessKey (example_params refusing_wallet (Some [''like'']) None) example_keyPair
          app_world) = Inl (Rejected ''user declined'')
   \<and> localStorage (snd (createAccessKey (example_params refusing_wallet (Some [''like'']) None)
                          example_keyPair app_world)) = localStorage app_world
   \<and> holds_key (snd (createAccessKey (example_params refusing_wallet (Some [''like'']) None)
                       example_keyPair app_world)) app_key"
proof -
  let ?params = "example_params refusing_wallet (Some [''like'']) None"
  have accounts: "getAccounts (wallet ?params) (trace app_world @ [WalletGetAccounts])
                    = Inr [alice]"
    by (simp add: example_defs)
  have refused: "wallet_signAndSendTransaction (wallet ?params)
                   (registration_history app_world ?params example_keyPair [alice])
                   = Inl (Rejected ''user declined'')"
    by (simp add: example_defs)
  note unchanged = createAccessKey_registration_fails [OF accounts refused]
  then have "getItem (snd (createAccessKey ?params example_keyPair app_world)) STORAGE_KEY
               = getItem app_world STORAGE_KEY"
    by (simp add: getItem_def)
  with unchanged holds_key_app_world show ?thesis
    by (simp add: holds_key_def)
qed

text \<open>
  C4, as the code has it. When the wallet has no account, \<open>createAccessKey\<close> raises no
  error of its own: it asks the wallet to sign the registration with \<^verbatim>\<open>undefined\<close> as
  the receiver, and its result is the wallet's answer to that request. When the wallet
  signs, the record it stores has no \<^verbatim>\<open>accountId\<close>.
\<close>

theorem createAccessKey_no_account:
  assumes "getAccounts (wallet params) (trace w @ [WalletGetAccounts]) = Inr []"
  shows "fst (createAccessKey params keyPair w)
           = wallet_signAndSendTransaction (wallet params)
               (registration_history w params keyPair [])
         \<and> wallet_receiverId (registration params keyPair []) = None
         \<and> trace (snd (createAccessKey params keyPair w))
             = registration_history w params keyPair []
         \<and> (\<forall>result. fst (createAccessKey params keyPair w) = Inr result \<longrightarrow>
               (\<exists>v. getItem (snd (createAccessKey params keyPair w)) STORAGE_KEY
                       = Some (Parsed v)
                    \<and> js_get v ''accountId'' = Inr None))"
proof -
  have stored: "\<exists>v. JSON_stringify_key None secret contract methods allowed = Parsed v
                  \<and> js_get v ''accountId'' = Inr None" for secret contract methods allowed
    by (cases methods) (simp_all add: JSON_stringify_key_def)
  show ?thesis
    using assms stored
    by (simp add: createAccessKey_cases registration_def AddKey_transaction_def getItem_def
        split: sum.splits)
qed

theorem createAccessKey_no_account_witness:
  "fst (createAccessKey (example_params (example_wallet []) (Some [''vote'']) None)
          example_keyPair app_world) = Inr (FinalExecutionOutcome ''key added'')
   \<and> wallet_receiverId
        (registration (example_params (example_wallet []) (Some [''vote'']) None)
           example_keyPair []) = None
   \<and> trace (snd (createAccessKey (example_params (example_wallet []) (Some [''vote'']) None)
                    example_keyPair app_world))
       = registration_history app_world
           (example_params (example_wallet []) (Some [''vote'']) None) example_keyPair []"
proof -
  let ?params = "example_params (example_wallet []) (Some [''vote'']) None"
  have none: "getAccounts (wallet ?params) (trace app_world @ [WalletGetAccounts]) = Inr []"
    by (simp add: example_defs)
  from createAccessKey_no_account [OF none, of example_keyPair] show ?thesis
    by (simp add: example_params_def example_wallet_def)
qed

text \<open>
  The claim as first stated fails: with a wallet that has no account and signs what it
  is asked, the call succeeds, and the stored record has no owner.
\<close>

theorem createAccessKey_no_account_succeeds:
  "fst (createAccessKey (example_params (example_wallet []) (Some [''vote'']) None)
          example_keyPair empty_world) = Inr (FinalExecutionOutcome ''key added'')
   \<and> getItem (snd (createAccessKey (example_params (example_wallet []) (Some [''vote'']) None)
                      example_keyPair empty_world)) STORAGE_KEY
       = Some (Parsed (JObject
           [(''privateKey'', JString ''ed25519:secret''),
            (''contractId'', JString ''app.near''),
            (''allowedMethods'', JArray [JString ''vote'']),
            (''allowance'', JString ''250000000000000000000000'')]))"
  by (simp add: createAccessKey_cases JSON_stringify_key_def DEFAULT_ALLOWANCE_def getItem_def
      example_defs)

text \<open>
  C8, as the code has it. After a call of \<open>createAccessKey\<close> that succeeded and was
  given method names \<open>ms\<close>, the store holds a record whose \<^verbatim>\<open>contractId\<close> and
  \<^verbatim>\<open>allowedMethods\<close> are the inputs, whose \<^verbatim>\<open>privateKey\<close> is the secret of the key pair
  whose public key was the one in the registration the wallet signed last, and whose
  \<^verbatim>\<open>allowance\<close> is the input, or the default when the input is left out or is the empty
  string; the registration carries the same contract, methods and allowance. When the
  wallet had an account, the record is a whole credential. The default is the text of
  a quarter of \<open>10 ^ 24\<close>.
\<close>

theorem createAccessKey_stores:
  assumes "createAccessKey params keyPair w = (Inr result, w')"
    and "methodNames params = Some ms"
  shows "\<exists>v owner allowed.
           getItem w' STORAGE_KEY = Some (Parsed v)
           \<and> js_get v ''contractId'' = Inr (Some (JString (params_contractId params)))
           \<and> js_get v ''allowedMethods'' = Inr (Some (JArray (map JString ms)))
           \<and> js_get v ''privateKey'' = Inr (Some (JString (toString keyPair)))
           \<and> js_get v ''allowance'' = Inr (Some (JString allowed))
           \<and> allowed = (case params_allowance params of
                          None \<Rightarrow> DEFAULT_ALLOWANCE
                        | Some a \<Rightarrow> if a = [] then DEFAULT_ALLOWANCE else a)
           \<and> last (trace w') =
               WalletSignAndSendTransaction
                 (AddKey_transaction owner (getPublicKey keyPair) (params_contractId params)
                    (Some ms) allowed)
           \<and> (\<forall>a. owner = Some a \<longrightarrow>
                  holds_key w'
                    \<lparr>accountId = a, privateKey = toString keyPair,
                     contractId = params_contractId params, allowedMethods = ms,
                     allowance = allowed\<rparr>)
           \<and> decimal_from 0 DEFAULT_ALLOWANCE = Some (10 ^ 24 div 4)"
proof -
  from assms(1) obtain accounts where
    acc: "getAccounts (wallet params) (trace w @ [WalletGetAccounts]) = Inr accounts"
    and ok: "wallet_signAndSendTransaction (wallet params)
               (registration_history w params keyPair accounts) = Inr result"
    by (auto simp: createAccessKey_cases split: sum.splits)
  define allowed where "allowed = or_default (params_allowance params) DEFAULT_ALLOWANCE"
  define owner where "owner = first_accountId accounts"
  define v where "v = JObject
       (property ''accountId'' (map_option JString owner)
        @ [(''privateKey'', JString (toString keyPair)),
           (''contractId'', JString (params_contractId params)),
           (''allowedMethods'', JArray (map JString ms)),
           (''allowance'', JString allowed)])"
  have idem: "or_default (Some allowed) DEFAULT_ALLOWANCE = allowed"
    unfolding allowed_def by (rule or_default_idem)
  have allowed: "allowed = (case params_allowance params of
                          None \<Rightarrow> DEFAULT_ALLOWANCE
                        | Some a \<Rightarrow> if a = [] then DEFAULT_ALLOWANCE else a)"
    by (simp add: allowed_def or_default_cases)
  from assms(1) acc ok have w': "w' = w\<lparr>trace := registration_history w params keyPair accounts,
                   localStorage := (localStorage w)(STORAGE_KEY \<mapsto>
                     JSON_stringify_key owner (toString keyPair)
                       (params_contractId params) (methodNames params) allowed)\<rparr>"
    by (simp add: createAccessKey_cases allowed_def owner_def)
  have stored: "getItem w' STORAGE_KEY = Some (Parsed v)"
    by (simp add: w' getItem_def JSON_stringify_key_def assms(2) idem v_def
        del: or_default.simps)
  have fields:
    "js_get v ''contractId'' = Inr (Some (JString (params_contractId params)))"
    "js_get v ''allowedMethods'' = Inr (Some (JArray (map JString ms)))"
    "js_get v ''privateKey'' = Inr (Some (JString (toString keyPair)))"
    "js_get v ''allowance'' = Inr (Some (JString allowed))"
    by (cases owner; simp add: v_def)+
  have sent: "last (trace w') =
               WalletSignAndSendTransaction
                 (AddKey_transaction owner (getPublicKey keyPair) (params_contractId params)
                    (Some ms) allowed)"
    by (simp add: w' registration_history_def registration_def assms(2) allowed_def owner_def)
  have whole: "holds_key w'
                    \<lparr>accountId = a, privateKey = toString keyPair,
                     contractId = params_contractId params, allowedMethods = ms,
                     allowance = allowed\<rparr>" if "owner = Some a" for a
    using that by (simp add: holds_key_def stored v_def AccessKeyData_json_def)
  from stored fields sent whole DEFAULT_ALLOWANCE_value allowed show ?thesis
    by blast
qed

theorem createAccessKey_stores_witness:
  "\<exists>v owner allowed.
     getItem (snd (createAccessKey (example_params (example_wallet [alice]) (Some [''vote''])
                     (Some ''1000'')) example_keyPair empty_world)) STORAGE_KEY
       = Some (Parsed v)
     \<and> js_get v ''contractId'' = Inr (Some (JString ''app.near''))
     \<and> js_get v ''allowedMethods'' = Inr (Some (JArray [JString ''vote'']))
     \<and> js_get v ''privateKey'' = Inr (Some (JString ''ed25519:secret''))
     \<and> js_get v ''allowance'' = Inr (Some (JString allowed))
     \<and> allowed = ''1000''
     \<and> last (trace (snd (createAccessKey (example_params (example_wallet [alice])
                           (Some [''vote'']) (Some ''1000'')) example_keyPair empty_world)))
         = WalletSignAndSendTransaction
             (AddKey_transaction owner ''ed25519:public'' ''app.near'' (Some [''vote''])
                allowed)"
proof -
  let ?params = "example_params (example_wallet [alice]) (Some [''vote'']) (Some ''1000'')"
  have "fst (createAccessKey ?params example_keyPair empty_world)
          = Inr (FinalExecutionOutcome ''key added'')"
    by (simp add: createAccessKey_cases example_defs)
  then have run: "createAccessKey ?params example_keyPair empty_world
      = (Inr (FinalExecutionOutcome ''key added''),
         snd (createAccessKey ?params example_keyPair empty_world))"
    by (simp add: prod_eq_iff)
  have methods: "methodNames ?params = Some [''vote'']"
    by (simp add: example_params_def)
  from createAccessKey_stores [OF run methods] show ?thesis
    by (simp add: example_params_def example_keyPair_def) blast
qed

text \<open>
  The claim as first stated fails: an allowance given as the empty string is not the
  allowance stored.
\<close>

theorem createAccessKey_empty_allowance:
  "params_allowance (example_params (example_wallet [alice]) (Some [''vote'']) (Some [])) = Some []
   \<and> fst (createAccessKey (example_params (example_wallet [alice]) (Some [''vote'']) (Some []))
            example_keyPair empty_world) = Inr (FinalExecutionOutcome ''key added'')
   \<and> getItem (snd (createAccessKey (example_params (example_wallet [alice]) (Some [''vote''])
                      (Some [])) example_keyPair empty_world)) STORAGE_KEY
       = Some (Parsed (JObject
           [(''accountId'', JString ''alice.near''),
            (''privateKey'', JString ''ed25519:secret''),
            (''contractId'', JString ''app.near''),
            (''allowedMethods'', JArray [JString ''vote'']),
            (''allowance'', JString ''250000000000000000000000'')]))"
  by (simp add: createAccessKey_cases JSON_stringify_key_def DEFAULT_ALLOWANCE_def getItem_def
      example_defs)

text \<open>
  A call without method names registers a key for every method, and stores a record
  with no \<^verbatim>\<open>allowedMethods\<close>: the next check of a function call on the contract
  raises \<^verbatim>\<open>TypeError\<close>.
\<close>

lemma createAccessKey_without_methodNames:
  "shouldUseAccessKey
     (snd (createAccessKey (example_params (example_wallet [alice]) None None)
             example_keyPair empty_world))
     (call_tx ''app.near'' ''vote'') = Inl TypeError"
  by (simp add: createAccessKey_cases JSON_stringify_key_def DEFAULT_ALLOWANCE_def
      shouldUseAccessKey_def getItem_def example_defs)

lemma createAccessKey_without_methodNames_store:
  "getItem (snd (createAccessKey (example_params (example_wallet [alice]) None None)
                   example_keyPair empty_world)) STORAGE_KEY
     = getItem unscoped_world STORAGE_KEY"
  by (simp add: createAccessKey_cases JSON_stringify_key_def DEFAULT_ALLOWANCE_def getItem_def
      setItem_def example_defs)

end
